theory Spec2Isabelle
  imports Complex_Main "HOL-Library.Log_Nat"
begin

section \<open>JavaScript values and errors\<close>

text \<open>
  The cache holds values of any type (the in-process store is declared over \<^verbatim>\<open>any\<close>),
  and the handler answers with whatever it finds there. Values are therefore modelled by
  one datatype. Numbers are the integers: every number the handler stores or counts is an
  integer (line counts, totals, seconds), and floating point is not modelled. An object is
  the list of its own properties in insertion order.
\<close>

datatype jsval =
    JUndefined
  | JNull
  | JBool bool
  | JNum int
  | JStr string
  | JObj "(string \<times> jsval) list"

text \<open>Truthiness, as \<^verbatim>\<open>||\<close>, \<^verbatim>\<open>!\<close> and \<^verbatim>\<open>if\<close> read a value.\<close>

fun truthy :: "jsval \<Rightarrow> bool" where
  "truthy JUndefined = False"
| "truthy JNull = False"
| "truthy (JBool b) = b"
| "truthy (JNum n) = (n \<noteq> 0)"
| "truthy (JStr s) = (s \<noteq> [])"
| "truthy (JObj ps) = True"

text \<open>Property read \<^verbatim>\<open>v.p\<close> on a value that is not null or undefined.\<close>

fun js_prop :: "jsval \<Rightarrow> string \<Rightarrow> jsval" where
  "js_prop (JObj ps) p = (case map_of ps p of Some v \<Rightarrow> v | None \<Rightarrow> JUndefined)"
| "js_prop v p = JUndefined"

text \<open>
  Property write \<^verbatim>\<open>o[k] = v\<close> on the property list of an object: an existing
  property keeps its place, a new one goes last.
\<close>

fun set_prop :: "string \<Rightarrow> 'v \<Rightarrow> (string \<times> 'v) list \<Rightarrow> (string \<times> 'v) list" where
  "set_prop k v [] = [(k, v)]"
| "set_prop k v ((k', v') # ps) = (if k' = k then (k, v) # ps else (k', v') # set_prop k v ps)"

text \<open>
  A thrown value is an \<^verbatim>\<open>Error\<close> with its name, its message and, for the errors of
  the filesystem, its \<^verbatim>\<open>code\<close>.
\<close>

datatype js_error = JsError (err_name: string) (err_message: string) (err_code: "string option")

text \<open>What a statement does: it completes with a value or it throws.\<close>

datatype 'a completion = Return 'a | Throw js_error

text \<open>\<^verbatim>\<open>new Error('AbortError')\<close>, thrown by the wrappers once the signal is aborted.\<close>

definition abort_error :: js_error where
  "abort_error = JsError ''Error'' ''AbortError'' None"

text \<open>Decimal printing of an integer, as a template literal prints a number.\<close>

definition digit :: "nat \<Rightarrow> char" where
  "digit d = ''0123456789'' ! (d mod 10)"

fun show_nat :: "nat \<Rightarrow> string" where
  "show_nat n = (if n < 10 then [digit n] else show_nat (n div 10) @ [digit (n mod 10)])"

declare show_nat.simps [simp del]

definition show_int :: "int \<Rightarrow> string" where
  "show_int i = (if i < 0 then CHR ''-'' # show_nat (nat (- i)) else show_nat (nat i))"

text \<open>\<^verbatim>\<open>Array.prototype.join\<close> on an array of strings.\<close>

fun js_join :: "string \<Rightarrow> string list \<Rightarrow> string" where
  "js_join sep [] = []"
| "js_join sep [x] = x"
| "js_join sep (x # y # ys) = x @ sep @ js_join sep (y # ys)"

text \<open>
  \<^verbatim>\<open>String.prototype.toLowerCase\<close>, on the letters of ASCII (a \<open>char\<close> is a byte;
  the extensions of the table are ASCII).
\<close>

definition lower_char :: "char \<Rightarrow> char" where
  "lower_char c =
     (case map_of (zip ''ABCDEFGHIJKLMNOPQRSTUVWXYZ'' ''abcdefghijklmnopqrstuvwxyz'') c of
        Some l \<Rightarrow> l
      | None \<Rightarrow> c)"

definition toLowerCase :: "string \<Rightarrow> string" where
  "toLowerCase s = map lower_char s"

section \<open>JavaScript numbers\<close>

text \<open>
  A number of JavaScript is a double: a finite value, NaN, or one of the two infinities.
  In \<open>'a jsnumber\<close> the finite values are taken from \<open>'a\<close>: a \<open>real jsnumber\<close> is any
  number, an \<open>int jsnumber\<close> is a number that is an integer when it is finite, which is
  what \<^verbatim>\<open>parseInt\<close> and \<^verbatim>\<open>Math.ceil\<close> return. The sign of zero is not modelled;
  nothing below observes it.
\<close>

datatype 'a jsnumber = Num 'a | NaN | PosInf | NegInf

text \<open>
  Rounding to the nearest double, ties to the even significand (IEEE 754 binary64), which
  is how the platform reads a decimal literal or string and how it rounds a product. For
  \<open>x > 0\<close>, \<open>exponent x\<close> is the \<open>e\<close> with \<open>2 powi e \<le> x < 2 powi (e + 1)\<close>. The doubles
  around \<open>x\<close> are the multiples of \<open>2 powi (e - 52)\<close>, and of \<open>2 powi (- 1074)\<close> below the
  normal range; a result of \<open>2 ^ 1024\<close> or more is an infinity.
\<close>

definition round_half_even :: "real \<Rightarrow> int" where
  "round_half_even x =
     (let n = \<lfloor>x\<rfloor>; d = x - of_int n
      in if d < 1 / 2 then n else if 1 / 2 < d then n + 1 else if even n then n else n + 1)"

definition exponent :: "real \<Rightarrow> int" where
  "exponent x =
     (if 1 \<le> x then int (floorlog 2 (nat \<lfloor>x\<rfloor>)) - 1
      else - int (floorlog 2 (nat \<lceil>1 / x\<rceil> - 1)))"

definition ulp_exponent :: "real \<Rightarrow> int" where
  "ulp_exponent x = max (exponent x) (- 1022) - 52"

definition round_pos :: "real \<Rightarrow> real" where
  "round_pos x = of_int (round_half_even (x / 2 powi ulp_exponent x)) * 2 powi ulp_exponent x"

definition binary64 :: "real \<Rightarrow> real jsnumber" where
  "binary64 x =
     (if x = 0 then Num 0
      else if 0 < x then (if 2 ^ 1024 \<le> round_pos x then PosInf else Num (round_pos x))
      else (if 2 ^ 1024 \<le> round_pos (- x) then NegInf else Num (- round_pos (- x))))"

text \<open>The product \<^verbatim>\<open>x * y\<close> of two numbers; finite arguments are doubles.\<close>

fun js_times :: "real jsnumber \<Rightarrow> real jsnumber \<Rightarrow> real jsnumber" where
  "js_times NaN y = NaN"
| "js_times x NaN = NaN"
| "js_times (Num a) (Num b) = binary64 (a * b)"
| "js_times (Num a) PosInf = (if a = 0 then NaN else if 0 < a then PosInf else NegInf)"
| "js_times (Num a) NegInf = (if a = 0 then NaN else if 0 < a then NegInf else PosInf)"
| "js_times PosInf (Num b) = (if b = 0 then NaN else if 0 < b then PosInf else NegInf)"
| "js_times NegInf (Num b) = (if b = 0 then NaN else if 0 < b then NegInf else PosInf)"
| "js_times PosInf PosInf = PosInf"
| "js_times PosInf NegInf = NegInf"
| "js_times NegInf PosInf = NegInf"
| "js_times NegInf NegInf = PosInf"

text \<open>\<^verbatim>\<open>Math.ceil\<close>; the ceiling of a double is a double.\<close>

fun js_ceil :: "real jsnumber \<Rightarrow> int jsnumber" where
  "js_ceil (Num x) = Num \<lceil>x\<rceil>"
| "js_ceil NaN = NaN"
| "js_ceil PosInf = PosInf"
| "js_ceil NegInf = NegInf"

text \<open>\<^verbatim>\<open>Math.max\<close> of two numbers: NaN when either is NaN.\<close>

fun js_max :: "('a::linorder) jsnumber \<Rightarrow> 'a jsnumber \<Rightarrow> 'a jsnumber" where
  "js_max NaN y = NaN"
| "js_max x NaN = NaN"
| "js_max PosInf y = PosInf"
| "js_max x PosInf = PosInf"
| "js_max NegInf y = y"
| "js_max x NegInf = x"
| "js_max (Num a) (Num b) = Num (max a b)"

text \<open>\<^verbatim>\<open>x <= y\<close>: false when either is NaN.\<close>

fun js_le :: "('a::linorder) jsnumber \<Rightarrow> 'a jsnumber \<Rightarrow> bool" where
  "js_le NaN y = False"
| "js_le x NaN = False"
| "js_le NegInf y = True"
| "js_le x PosInf = True"
| "js_le PosInf y = False"
| "js_le x NegInf = False"
| "js_le (Num a) (Num b) = (a \<le> b)"

text \<open>
  A number written in decimal, in the source or in the environment, as the platform
  reads it.
\<close>

fun parsed_float :: "real jsnumber \<Rightarrow> real jsnumber" where
  "parsed_float (Num r) = binary64 r"
| "parsed_float x = x"

text \<open>
  A number in a template literal; an integer below \<open>10 ^ 21\<close> in size prints as its
  decimal digits.
\<close>

fun show_number :: "int jsnumber \<Rightarrow> string" where
  "show_number (Num n) = show_int n"
| "show_number NaN = ''NaN''"
| "show_number PosInf = ''Infinity''"
| "show_number NegInf = ''-Infinity''"

section \<open>The cache (lib/cache)\<close>

subsection \<open>The LRU store the in-process backend is built on\<close>

text \<open>
  \<^verbatim>\<open>lru-cache\<close> is a package the repository depends on. Its store is modelled as the
  list of its entries, most recently used first, each with the instant it was written and
  its time to live, both in milliseconds. The store is built with \<^verbatim>\<open>max: 100\<close> and
  \<^verbatim>\<open>ttl: DEFAULT_TTL * 1000\<close>. An entry is stale once its age exceeds its time to live
  (never, when that is Infinity; always, when it is -Infinity);
  reading a stale entry removes it and yields undefined; reading a live entry makes it the
  most recently used; writing past the maximum drops the least recently used entry;
  writing undefined deletes the key. The clock is a parameter.
\<close>

definition DEFAULT_TTL :: int where
  "DEFAULT_TTL = 24 * 60 * 60"

record lru_entry =
  ekey :: string
  evalue :: jsval
  estart :: int
  ettl :: "int jsnumber"

type_synonym lru = "lru_entry list"

definition lru_max :: nat where
  "lru_max = 100"

definition lru_ttl :: int where
  "lru_ttl = DEFAULT_TTL * 1000"

definition is_stale :: "int \<Rightarrow> lru_entry \<Rightarrow> bool" where
  "is_stale now e =
     (case ettl e of
        Num t \<Rightarrow> now - estart e > t
      | NaN \<Rightarrow> False
      | PosInf \<Rightarrow> False
      | NegInf \<Rightarrow> True)"

definition lru_delete :: "lru \<Rightarrow> string \<Rightarrow> lru" where
  "lru_delete c k = filter (\<lambda>e. ekey e \<noteq> k) c"

definition lru_get :: "int \<Rightarrow> lru \<Rightarrow> string \<Rightarrow> jsval \<times> lru" where
  "lru_get now c k =
     (case find (\<lambda>e. ekey e = k) c of
        None \<Rightarrow> (JUndefined, c)
      | Some e \<Rightarrow>
          if is_stale now e then (JUndefined, lru_delete c k)
          else (evalue e, e # lru_delete c k))"

definition lru_set :: "int \<Rightarrow> lru \<Rightarrow> string \<Rightarrow> jsval \<Rightarrow> int jsnumber option \<Rightarrow> lru" where
  "lru_set now c k v ttl =
     (if v = JUndefined then lru_delete c k
      else take lru_max
        (\<lparr>ekey = k, evalue = v, estart = now,
          ettl = (case ttl of Some t \<Rightarrow> t | None \<Rightarrow> Num lru_ttl)\<rparr> # lru_delete c k))"

subsection \<open>MemoryCacheImpl\<close>

text \<open>
  \<^verbatim>\<open>get\<close> is \<^verbatim>\<open>(this.cache.get(key) as T) || null\<close>;
  \<^verbatim>\<open>set\<close> is \<^verbatim>\<open>this.cache.set(key, value, { ttl: ttl ? ttl * 1000 : undefined })\<close>.
  The optional argument \<^verbatim>\<open>ttl\<close> (seconds) is an \<open>int option\<close>.
\<close>

definition mem_ttl_ms :: "int option \<Rightarrow> int option" where
  "mem_ttl_ms ttl =
     (case ttl of
        None \<Rightarrow> None
      | Some t \<Rightarrow> if t \<noteq> 0 then Some (t * 1000) else None)"

definition mem_get :: "int \<Rightarrow> lru \<Rightarrow> string \<Rightarrow> jsval \<times> lru" where
  "mem_get now c key =
     (let (v, c') = lru_get now c key in ((if truthy v then v else JNull), c'))"

definition mem_set :: "int \<Rightarrow> lru \<Rightarrow> string \<Rightarrow> jsval \<Rightarrow> int option \<Rightarrow> lru" where
  "mem_set now c key v ttl = lru_set now c key v (map_option Num (mem_ttl_ms ttl))"

text \<open>
  \<^verbatim>\<open>set\<close> for every number \<^verbatim>\<open>ttl\<close> that can be passed: NaN is falsy, so the
  option given to the store is undefined as for a missing argument; an infinity is truthy
  and a thousand times an infinity is that infinity.
\<close>

fun mem_set_number :: "int \<Rightarrow> lru \<Rightarrow> string \<Rightarrow> jsval \<Rightarrow> int jsnumber \<Rightarrow> lru" where
  "mem_set_number now c key v (Num t) = mem_set now c key v (Some t)"
| "mem_set_number now c key v NaN = mem_set now c key v None"
| "mem_set_number now c key v PosInf = lru_set now c key v (Some PosInf)"
| "mem_set_number now c key v NegInf = lru_set now c key v (Some NegInf)"

text \<open>The time to live, in milliseconds, that an entry written by \<open>mem_set\<close> carries.\<close>

definition mem_entry_ttl :: "int option \<Rightarrow> int" where
  "mem_entry_ttl ttl = (case mem_ttl_ms ttl of Some t \<Rightarrow> t | None \<Rightarrow> lru_ttl)"

subsection \<open>The CacheService interface and two of its implementations\<close>

text \<open>
  The handler calls \<^verbatim>\<open>cache.get\<close> and \<^verbatim>\<open>cache.set\<close> on whichever implementation
  the factory chose. A service is a pair of operations over its own state; either may
  throw (the networked backend can fail). The handler always passes a number as the time
  to live. The in-process implementation at clock reading \<open>now\<close> and the disabled one
  are given; the networked one, which needs a server and a serialisation of values, is
  not.
\<close>

record 's CacheService =
  cache_get :: "'s \<Rightarrow> string \<Rightarrow> jsval completion \<times> 's"
  cache_set :: "'s \<Rightarrow> string \<Rightarrow> jsval \<Rightarrow> int jsnumber \<Rightarrow> unit completion \<times> 's"

definition MemoryCacheImpl :: "int \<Rightarrow> lru CacheService" where
  "MemoryCacheImpl now =
     \<lparr>cache_get = (\<lambda>c key. (Return (fst (mem_get now c key)), snd (mem_get now c key))),
      cache_set = (\<lambda>c key v ttl. (Return (), mem_set_number now c key v ttl))\<rparr>"

definition DisabledCache :: "'s CacheService" where
  "DisabledCache =
     \<lparr>cache_get = (\<lambda>s key. (Return JNull, s)),
      cache_set = (\<lambda>s key v ttl. (Return (), s))\<rparr>"

text \<open>
  A service that hands every call on to another one and keeps, next to that one's state,
  the list of the calls it was given with their arguments. What it holds after a request
  are the calls the handler made on the cache.
\<close>

datatype cache_call = GetCall string | SetCall string jsval "int jsnumber"

fun call_key :: "cache_call \<Rightarrow> string" where
  "call_key (GetCall k) = k"
| "call_key (SetCall k v t) = k"

definition Recording :: "'s CacheService \<Rightarrow> ('s \<times> cache_call list) CacheService" where
  "Recording inner =
     \<lparr>cache_get = (\<lambda>(s, seen) key.
        (fst (cache_get inner s key), (snd (cache_get inner s key), seen @ [GetCall key]))),
      cache_set = (\<lambda>(s, seen) key v ttl.
        (fst (cache_set inner s key v ttl),
         (snd (cache_set inner s key v ttl), seen @ [SetCall key v ttl])))\<rparr>"

section \<open>The retrying wrapper (wrapGraceful)\<close>

text \<open>
  The wrapped function is called again and again by the loop; \<open>fn i\<close> is what its
  call number \<open>i\<close> (from 0) does. The wrapper's result comes with the number of calls made
  and the delays slept between them, in order. \<open>aborted\<close> is \<^verbatim>\<open>signal.aborted\<close>
  when the wrapper is invoked. \<open>retry_loop\<close> is the \<^verbatim>\<open>while (true)\<close> loop with its two
  variables \<^verbatim>\<open>retries\<close> and \<^verbatim>\<open>delay\<close>.
\<close>

definition is_transient :: "js_error \<Rightarrow> bool" where
  "is_transient e = (err_code e = Some ''EMFILE'' \<or> err_code e = Some ''ENFILE'')"

fun retry_loop ::
  "(nat \<Rightarrow> 'a completion) \<Rightarrow> nat \<Rightarrow> nat \<Rightarrow> nat \<Rightarrow> 'a completion \<times> nat \<times> nat list" where
  "retry_loop fn i retries delay =
     (case fn i of
        Return v \<Rightarrow> (Return v, Suc i, [])
      | Throw e \<Rightarrow>
          if is_transient e \<and> retries > 0 then
            (let (r, n, ds) = retry_loop fn (Suc i) (retries - 1) (delay * 2)
             in (r, n, delay # ds))
          else (Throw e, Suc i, []))"

declare retry_loop.simps [simp del]

definition wrapGraceful :: "bool \<Rightarrow> (nat \<Rightarrow> 'a completion) \<Rightarrow> 'a completion \<times> nat \<times> nat list" where
  "wrapGraceful aborted fn =
     (if aborted then (Throw abort_error, 0, []) else retry_loop fn 0 10 100)"

text \<open>A call that throws an error the loop retries.\<close>

definition fails_transiently :: "'a completion \<Rightarrow> bool" where
  "fails_transiently c = (case c of Throw e \<Rightarrow> is_transient e | Return v \<Rightarrow> False)"

section \<open>Counting lines\<close>

text \<open>
  \<^verbatim>\<open>content.split(/\r\n|\r|\n/)\<close>: the string is scanned from the left; at a carriage
  return followed by a line feed the first alternative matches both, at a lone carriage
  return or a line feed the second or third matches one character; each match closes the
  segment collected so far. Decoding a file as UTF-8 leaves the bytes 13 and 10 as they
  are, so the content is the list of the file's bytes.
\<close>

definition CR :: char where
  "CR = CHR 0x0D"

definition LF :: char where
  "LF = CHR 0x0A"

fun split_from :: "string \<Rightarrow> string \<Rightarrow> string list" where
  "split_from cur [] = [rev cur]"
| "split_from cur (c # cs) =
     (if c = CR then
        (case cs of
           [] \<Rightarrow> rev cur # split_from [] cs
         | d # ds \<Rightarrow> if d = LF then rev cur # split_from [] ds else rev cur # split_from [] cs)
      else if c = LF then rev cur # split_from [] cs
      else split_from (c # cur) cs)"

definition split_lines :: "string \<Rightarrow> string list" where
  "split_lines content = split_from [] content"

text \<open>
  The count in the words of the specification: one more than the number of terminators,
  where a terminator is a CRLF pair, a CR that no LF follows, or an LF that no CR
  precedes. Every LF ends exactly one terminator (a pair or a bare LF), so the
  terminators are the line feeds and the carriage returns that no line feed follows.
\<close>

definition bare_CRs :: "string \<Rightarrow> nat" where
  "bare_CRs s =
     length (filter (\<lambda>(c, next). c = CR \<and> next \<noteq> Some LF) (zip s (map Some (tl s) @ [None])))"

definition terminator_count :: "string \<Rightarrow> nat" where
  "terminator_count s = count_list s LF + bare_CRs s"

definition segment_count :: "string \<Rightarrow> nat" where
  "segment_count s = Suc (terminator_count s)"

section \<open>The traversal\<close>

subsection \<open>Paths and the extension table\<close>

text \<open>
  \<^verbatim>\<open>path.extname\<close> of Node, on a name without separators (the names a directory
  listing yields): the text from the last dot on, and nothing when there is no dot, when
  the last dot is the first character, or when the name is two dots.
\<close>

definition extname :: "string \<Rightarrow> string" where
  "extname p =
     (let r = rev p;
          ext = takeWhile (\<lambda>c. c \<noteq> CHR ''.'') r;
          rest = dropWhile (\<lambda>c. c \<noteq> CHR ''.'') r
      in if rest = [] \<or> tl rest = [] \<or> p = ''..'' then [] else CHR ''.'' # rev ext)"

definition path_join :: "string \<Rightarrow> string \<Rightarrow> string" where
  "path_join dir file = dir @ ''/'' @ file"

text \<open>
  \<^verbatim>\<open>EXTENSION_MAP\<close> lives in \<^verbatim>\<open>lib/constants\<close>; the traversal takes it as a
  parameter \<open>tbl\<close>, which sends an extension to the \<^verbatim>\<open>name\<close> of its entry. Its names
  are language names; none is the name of a member of \<^verbatim>\<open>Object.prototype\<close>.
  \<open>languageName\<close> is the value of the variable of that name after the three-way
  branch, \<open>None\<close> when the branch returns.
\<close>

definition languageName :: "(string \<Rightarrow> string option) \<Rightarrow> string \<Rightarrow> string option" where
  "languageName tbl file =
     (let ext = toLowerCase (extname file)
      in if file = ''Dockerfile'' then Some ''Dockerfile''
         else case tbl ext of Some name \<Rightarrow> Some name | None \<Rightarrow> None)"

subsection \<open>The checked-out tree\<close>

text \<open>
  What the filesystem answers below the temporary directory: a regular file with its
  content, a regular file whose read fails, a directory with its entries, a directory
  whose listing fails, an entry that is neither file nor directory, and an entry whose
  \<^verbatim>\<open>stat\<close> fails.
\<close>

datatype node =
    File string
  | UnreadableFile js_error
  | Dir "(string \<times> node) list"
  | UnlistableDir js_error
  | Other
  | NoStat js_error

subsection \<open>The calls the traversal makes\<close>

text \<open>
  Each filesystem call is recorded with the object it is called on and with whether it is
  made inside \<^verbatim>\<open>limit(...)\<close>. \<open>PlainFs\<close> is the imported module \<^verbatim>\<open>fs\<close>;
  \<open>GracefulFs\<close> is \<^verbatim>\<open>customFs.promises\<close>, whose functions are wrapped by
  \<open>wrapGraceful\<close> and which is passed to \<^verbatim>\<open>git.clone\<close>.
\<close>

datatype fs_op = Readdir | Stat | ReadFile

datatype fs_receiver = PlainFs | GracefulFs

record fs_call =
  fs_op :: fs_op
  fs_receiver :: fs_receiver
  fs_path :: string
  fs_limited :: bool

record tstate =
  stats :: "(string \<times> int) list"
  totalLines :: int
  calls :: "fs_call list"

definition init_state :: tstate where
  "init_state = \<lparr>stats = [], totalLines = 0, calls = []\<rparr>"

definition record_call :: "fs_op \<Rightarrow> fs_receiver \<Rightarrow> string \<Rightarrow> bool \<Rightarrow> tstate \<Rightarrow> tstate" where
  "record_call f r p inside st =
     st\<lparr>calls := calls st @ [\<lparr>fs_op = f, fs_receiver = r, fs_path = p, fs_limited = inside\<rparr>]\<rparr>"

text \<open>\<^verbatim>\<open>x || 0\<close> on a property that may be missing.\<close>

definition or_zero :: "int option \<Rightarrow> int" where
  "or_zero x = (case x of Some v \<Rightarrow> if v \<noteq> 0 then v else 0 | None \<Rightarrow> 0)"

text \<open>The two assignments after a successful read.\<close>

definition count_file :: "string \<Rightarrow> string \<Rightarrow> tstate \<Rightarrow> tstate" where
  "count_file lang content st =
     (let lines = int (length (split_lines content))
      in st\<lparr>stats := set_prop lang (or_zero (map_of (stats st) lang) + lines) (stats st),
             totalLines := totalLines st + lines\<rparr>)"

definition enotdir :: js_error where
  "enotdir = JsError ''Error'' ''ENOTDIR: not a directory, scandir'' (Some ''ENOTDIR'')"

text \<open>Adding \<open>n\<close> lines to a language and to the total.\<close>

definition add_lines :: "string \<Rightarrow> int \<Rightarrow> tstate \<Rightarrow> tstate" where
  "add_lines lang n st =
     st\<lparr>stats := set_prop lang (or_zero (map_of (stats st) lang) + n) (stats st),
        totalLines := totalLines st + n\<rparr>"

text \<open>
  The invariant of the two counters: the total is the sum of the counts, no count is
  negative, and no language occurs twice.
\<close>

definition consistent :: "tstate \<Rightarrow> bool" where
  "consistent st =
     (totalLines st = sum_list (map snd (stats st))
      \<and> list_all (\<lambda>(k, v). 0 \<le> v) (stats st)
      \<and> distinct (map fst (stats st)))"

subsection \<open>traverse\<close>

text \<open>
  \<open>traverse\<close> is the function of that name, \<open>visit\<close> the callback mapped over the
  listing. The tasks of one level run interleaved on one thread; each of them updates the
  two counters in one step that nothing interrupts, so a run is some ordering of these
  steps. The model takes them in the order of the listing and stops at the first task that
  throws. A result is \<open>None\<close> with the final state, or the error thrown with the state
  reached. Listing something that is not a directory throws.
\<close>

fun traverse ::
  "(string \<Rightarrow> string option) \<Rightarrow> string \<Rightarrow> node \<Rightarrow> tstate \<Rightarrow> js_error option \<times> tstate"
and visit ::
  "(string \<Rightarrow> string option) \<Rightarrow> string \<Rightarrow> (string \<times> node) list \<Rightarrow> tstate \<Rightarrow> js_error option \<times> tstate"
where
  "traverse tbl currentPath (Dir files) st =
     visit tbl currentPath files (record_call Readdir PlainFs currentPath False st)"
| "traverse tbl currentPath (UnlistableDir e) st =
     (Some e, record_call Readdir PlainFs currentPath False st)"
| "traverse tbl currentPath (File content) st =
     (Some enotdir, record_call Readdir PlainFs currentPath False st)"
| "traverse tbl currentPath (UnreadableFile e) st =
     (Some enotdir, record_call Readdir PlainFs currentPath False st)"
| "traverse tbl currentPath Other st =
     (Some enotdir, record_call Readdir PlainFs currentPath False st)"
| "traverse tbl currentPath (NoStat e) st =
     (Some e, record_call Readdir PlainFs currentPath False st)"
| "visit tbl currentPath [] st = (None, st)"
| "visit tbl currentPath ((file, n) # rest) st =
     (if file = ''.git'' then visit tbl currentPath rest st
      else
        let filePath = path_join currentPath file;
            st1 = record_call Stat PlainFs filePath True st
        in case n of
             NoStat e \<Rightarrow> (Some e, st1)
           | Dir files \<Rightarrow>
               (case traverse tbl filePath n st1 of
                  (Some e, st2) \<Rightarrow> (Some e, st2)
                | (None, st2) \<Rightarrow> visit tbl currentPath rest st2)
           | UnlistableDir e \<Rightarrow>
               (case traverse tbl filePath n st1 of
                  (Some e', st2) \<Rightarrow> (Some e', st2)
                | (None, st2) \<Rightarrow> visit tbl currentPath rest st2)
           | Other \<Rightarrow> visit tbl currentPath rest st1
           | File content \<Rightarrow>
               (case languageName tbl file of
                  None \<Rightarrow> visit tbl currentPath rest st1
                | Some lang \<Rightarrow>
                    visit tbl currentPath rest
                      (count_file lang content (record_call ReadFile PlainFs filePath True st1)))
           | UnreadableFile e \<Rightarrow>
               (case languageName tbl file of
                  None \<Rightarrow> visit tbl currentPath rest st1
                | Some lang \<Rightarrow>
                    visit tbl currentPath rest (record_call ReadFile PlainFs filePath True st1)))"

text \<open>The claim that every call goes through both the limiter and the retrying wrapper.\<close>

definition guarded :: "fs_call \<Rightarrow> bool" where
  "guarded c = (fs_limited c \<and> fs_receiver c = GracefulFs)"

text \<open>What holds of a call instead.\<close>

definition call_ok :: "fs_call \<Rightarrow> bool" where
  "call_ok c = (fs_receiver c = PlainFs \<and> (fs_op c = Readdir \<or> fs_limited c))"

definition calls_ok :: "tstate \<Rightarrow> bool" where
  "calls_ok st = list_all call_ok (calls st)"

section \<open>The request handler (POST)\<close>

subsection \<open>Configuration and environment\<close>

text \<open>
  The five constants read from the environment. The minimum, the timeout and the time to
  live of a timeout are what \<^verbatim>\<open>parseInt\<close> returned: an integer, or NaN for a value
  that does not start with digits. The factor is the number as it is written (or NaN),
  which \<^verbatim>\<open>parseFloat\<close>, like the literal \<^verbatim>\<open>0.01\<close> of the default, reads as the
  nearest double: \<open>parsed_float\<close> of the field is the value of the constant.
\<close>

record config =
  ALLOWED_DOMAINS :: "string list"
  CACHE_TTL_MIN_SECONDS :: "int jsnumber"
  CACHE_TTL_PER_BYTE :: "real jsnumber"
  ANALYSIS_TIMEOUT_SECONDS :: "int jsnumber"
  CACHE_TTL_ON_TIMEOUT :: "int jsnumber"

definition default_config :: config where
  "default_config =
     \<lparr>ALLOWED_DOMAINS = [''github.com'', ''gitlab.com'', ''bitbucket.org''],
      CACHE_TTL_MIN_SECONDS = Num 86400,
      CACHE_TTL_PER_BYTE = Num (1 / 100),
      ANALYSIS_TIMEOUT_SECONDS = Num 60,
      CACHE_TTL_ON_TIMEOUT = Num 31536000\<rparr>"

text \<open>
  The parts of a parsed URL that the handler reads, and its normal form \<open>href\<close>.
\<close>

record parsed_url =
  protocol :: string
  hostname :: string
  href :: string

text \<open>
  When the timer of the request fires, relative to the two long phases: not before the
  request is answered, before the clone has finished, or after the clone and before the
  traversal has finished. The timer only sets \<^verbatim>\<open>signal.aborted\<close>; what that does is
  up to the code that reads the signal.
\<close>

datatype deadline = NotReached | DuringFetch | DuringTraversal

text \<open>
  What lies outside the handler, for one request: the URL parser of the platform
  (\<open>None\<close> when \<^verbatim>\<open>new URL\<close> throws), the creation of the temporary directory, the
  deadline, what the clone does when nothing cancels it (it fails, or it transfers so many
  bytes and leaves a tree), and the extension table.
\<close>

record env =
  new_URL :: "string \<Rightarrow> parsed_url option"
  mkdtemp :: "string completion"
  deadline :: deadline
  clone_result :: "(nat \<times> node) completion"
  EXTENSION_MAP :: "string \<Rightarrow> string option"

text \<open>
  \<^verbatim>\<open>git.clone\<close> does all its I/O through \<^verbatim>\<open>customHttp\<close> and \<^verbatim>\<open>customFs\<close>,
  which throw \<open>abort_error\<close> once the signal is aborted; the library passes the error on.
\<close>

definition git_clone :: "env \<Rightarrow> (nat \<times> node) completion" where
  "git_clone env = (if deadline env = DuringFetch then Throw abort_error else clone_result env)"

text \<open>
  A model of the platform's URL parser for examples: it covers \<^verbatim>\<open>scheme://host/path\<close>
  with a scheme of letters and a host without port or credentials, and lowers scheme and
  host as the platform does for these schemes; every other string is outside it.
\<close>

definition is_letter :: "char \<Rightarrow> bool" where
  "is_letter c = (c \<in> set ''abcdefghijklmnopqrstuvwxyzABCDEFGHIJKLMNOPQRSTUVWXYZ'')"

definition is_host_char :: "char \<Rightarrow> bool" where
  "is_host_char c = (is_letter c \<or> c \<in> set ''0123456789.-'')"

definition simple_URL :: "string \<Rightarrow> parsed_url option" where
  "simple_URL s =
     (let scheme = takeWhile (\<lambda>c. c \<noteq> CHR '':'') s;
          rest = dropWhile (\<lambda>c. c \<noteq> CHR '':'') s;
          host = takeWhile (\<lambda>c. c \<noteq> CHR ''/'') (drop 3 rest);
          path = dropWhile (\<lambda>c. c \<noteq> CHR ''/'') (drop 3 rest)
      in if toLowerCase scheme \<notin> set [''http'', ''https'', ''ftp'', ''ws'', ''wss'']
            \<or> take 3 rest \<noteq> ''://'' \<or> host = [] \<or> \<not> list_all is_host_char host
         then None
         else Some \<lparr>protocol = toLowerCase scheme @ '':'',
                    hostname = toLowerCase host,
                    href = toLowerCase scheme @ ''://'' @ toLowerCase host
                           @ (if path = [] then ''/'' else path)\<rparr>)"

subsection \<open>Responses and effects\<close>

record response =
  status :: nat
  body :: jsval

definition error_response :: "nat \<Rightarrow> string \<Rightarrow> response" where
  "error_response code msg = \<lparr>status = code, body = JObj [(''error'', JStr msg)]\<rparr>"

text \<open>
  The request body. Either reading it throws: \<^verbatim>\<open>request.json()\<close> on an empty or
  malformed body, or \<^verbatim>\<open>body.repoUrl\<close> on the body \<^verbatim>\<open>null\<close>. Or it yields a
  value whose \<^verbatim>\<open>repoUrl\<close> is a string or is missing.
\<close>

datatype request_body = BodyThrows js_error | Body "string option"

text \<open>The effects of a request on the world outside, in order.\<close>

datatype event =
    CacheGet string
  | CacheSet string jsval "int jsnumber"
  | Mkdtemp
  | Clone string string
  | Walk "fs_call list"
  | Remove string

subsection \<open>The handler\<close>

text \<open>The four checks before the cache is consulted; \<open>Inr\<close> is a URL that passed.\<close>

definition validate :: "config \<Rightarrow> env \<Rightarrow> string option \<Rightarrow> response + string" where
  "validate cfg env repoUrl =
     (case repoUrl of
        None \<Rightarrow> Inl (error_response 400 ''Repository URL is required'')
      | Some u \<Rightarrow>
          if u = [] then Inl (error_response 400 ''Repository URL is required'')
          else
            (case new_URL env u of
               None \<Rightarrow> Inl (error_response 400 ''Invalid URL provided'')
             | Some parsedUrl \<Rightarrow>
                 if protocol parsedUrl \<noteq> ''http:'' \<and> protocol parsedUrl \<noteq> ''https:'' then
                   Inl (error_response 400 ''Invalid protocol. Only HTTP/HTTPS are allowed.'')
                 else if hostname parsedUrl \<notin> set (ALLOWED_DOMAINS cfg) then
                   Inl (error_response 400
                     (''Domain not allowed. Supported providers: ''
                      @ js_join '', '' (ALLOWED_DOMAINS cfg)))
                 else Inr u))"

definition cacheKey :: "string \<Rightarrow> string" where
  "cacheKey repoUrl = ''repo:'' @ repoUrl"

definition result_json :: "tstate \<Rightarrow> jsval" where
  "result_json st =
     JObj [(''stats'', JObj (map (\<lambda>(k, v). (k, JNum v)) (stats st))),
           (''totalLines'', JNum (totalLines st))]"

text \<open>
  \<^verbatim>\<open>Math.max(CACHE_TTL_MIN_SECONDS, Math.ceil(totalBytesDownloaded * CACHE_TTL_PER_BYTE))\<close>.
  The byte count is a sum of chunk lengths, an integer below \<open>2 ^ 53\<close> and so a double.
\<close>

definition cache_ttl :: "config \<Rightarrow> nat \<Rightarrow> int jsnumber" where
  "cache_ttl cfg totalBytesDownloaded =
     js_max (CACHE_TTL_MIN_SECONDS cfg)
       (js_ceil (js_times (Num (real totalBytesDownloaded)) (parsed_float (CACHE_TTL_PER_BYTE cfg))))"

text \<open>
  The state of a request when the \<^verbatim>\<open>try\<close> block is left: how it was left, the cache,
  the effects so far, and the variable \<^verbatim>\<open>tempDir\<close>.
\<close>

record 's run =
  completion :: "response completion"
  store :: 's
  events :: "event list"
  tempDir :: string

text \<open>From the creation of the temporary directory to the write into the cache.\<close>

definition compute :: "config \<Rightarrow> env \<Rightarrow> 's CacheService \<Rightarrow> 's \<Rightarrow> string \<Rightarrow> 's run" where
  "compute cfg env cache s repoUrl =
     (case mkdtemp env of
        Throw e \<Rightarrow> \<lparr>completion = Throw e, store = s, events = [Mkdtemp], tempDir = []\<rparr>
      | Return dir \<Rightarrow>
          (case git_clone env of
             Throw e \<Rightarrow>
               \<lparr>completion = Throw e, store = s,
                events = [Mkdtemp, Clone repoUrl dir], tempDir = dir\<rparr>
           | Return (totalBytesDownloaded, tree) \<Rightarrow>
               (case traverse (EXTENSION_MAP env) dir tree init_state of
                  (Some e, st) \<Rightarrow>
                    \<lparr>completion = Throw e, store = s,
                     events = [Mkdtemp, Clone repoUrl dir, Walk (calls st)], tempDir = dir\<rparr>
                | (None, st) \<Rightarrow>
                    (let result = result_json st;
                         ttl = cache_ttl cfg totalBytesDownloaded;
                         evs = [Mkdtemp, Clone repoUrl dir, Walk (calls st),
                                CacheSet (cacheKey repoUrl) result ttl]
                     in case cache_set cache s (cacheKey repoUrl) result ttl of
                          (Throw e, s') \<Rightarrow>
                            \<lparr>completion = Throw e, store = s', events = evs, tempDir = dir\<rparr>
                        | (Return u, s') \<Rightarrow>
                            \<lparr>completion = Return \<lparr>status = 200, body = result\<rparr>,
                             store = s', events = evs, tempDir = dir\<rparr>))))"

text \<open>From the cache lookup on.\<close>

definition analyse :: "config \<Rightarrow> env \<Rightarrow> 's CacheService \<Rightarrow> 's \<Rightarrow> string \<Rightarrow> 's run" where
  "analyse cfg env cache s repoUrl =
     (case cache_get cache s (cacheKey repoUrl) of
        (Throw e, s') \<Rightarrow>
          \<lparr>completion = Throw e, store = s', events = [CacheGet (cacheKey repoUrl)], tempDir = []\<rparr>
      | (Return cachedData, s') \<Rightarrow>
          if truthy cachedData then
            \<lparr>completion = Return
               (if truthy (js_prop cachedData ''error'')
                then \<lparr>status = 400, body = JObj [(''error'', js_prop cachedData ''error'')]\<rparr>
                else \<lparr>status = 200, body = cachedData\<rparr>),
             store = s', events = [CacheGet (cacheKey repoUrl)], tempDir = []\<rparr>
          else
            (let r = compute cfg env cache s' repoUrl
             in r\<lparr>events := CacheGet (cacheKey repoUrl) # events r\<rparr>))"

text \<open>The \<^verbatim>\<open>catch\<close> block; a failure of its own cache write is swallowed.\<close>

definition is_abort :: "js_error \<Rightarrow> bool" where
  "is_abort e = (err_name e = ''AbortError'' \<or> err_message e = ''AbortError'')"

definition timeout_message :: "config \<Rightarrow> string" where
  "timeout_message cfg =
     ''Analysis timed out after '' @ show_number (ANALYSIS_TIMEOUT_SECONDS cfg) @ '' seconds''"

definition on_error ::
  "config \<Rightarrow> 's CacheService \<Rightarrow> 's \<Rightarrow> string option \<Rightarrow> js_error \<Rightarrow> response \<times> 's \<times> event list" where
  "on_error cfg cache s repoUrl e =
     (if is_abort e then
        (let errorMessage = timeout_message cfg in
         case repoUrl of
           None \<Rightarrow> (error_response 408 errorMessage, s, [])
         | Some u \<Rightarrow>
             if u = [] then (error_response 408 errorMessage, s, [])
             else
               (let v = JObj [(''error'', JStr errorMessage)]
                in (error_response 408 errorMessage,
                    snd (cache_set cache s (cacheKey u) v (CACHE_TTL_ON_TIMEOUT cfg)),
                    [CacheSet (cacheKey u) v (CACHE_TTL_ON_TIMEOUT cfg)])))
      else (error_response 500 (err_message e), s, []))"

text \<open>The \<^verbatim>\<open>finally\<close> block: the temporary directory is removed when it was created.\<close>

definition cleanup :: "string \<Rightarrow> event list" where
  "cleanup dir = (if dir \<noteq> [] then [Remove dir] else [])"

definition POST ::
  "config \<Rightarrow> env \<Rightarrow> 's CacheService \<Rightarrow> 's \<Rightarrow> request_body \<Rightarrow> response \<times> 's \<times> event list" where
  "POST cfg env cache s request =
     (case request of
        BodyThrows e \<Rightarrow> on_error cfg cache s None e
      | Body repoUrl \<Rightarrow>
          (case validate cfg env repoUrl of
             Inl rejection \<Rightarrow> (rejection, s, [])
           | Inr u \<Rightarrow>
               (let r = analyse cfg env cache s u
                in case completion r of
                     Return resp \<Rightarrow> (resp, store r, events r @ cleanup (tempDir r))
                   | Throw e \<Rightarrow>
                       (case on_error cfg cache (store r) repoUrl e of
                          (resp, s', evs) \<Rightarrow> (resp, s', events r @ evs @ cleanup (tempDir r))))))"

text \<open>
  The rejected requests in the words of the specification: the URL is missing, does not
  parse, has a scheme other than http and https, or has a host outside the allow-list.
\<close>

definition rejected :: "config \<Rightarrow> env \<Rightarrow> string option \<Rightarrow> bool" where
  "rejected cfg env repoUrl =
     (case repoUrl of
        None \<Rightarrow> True
      | Some u \<Rightarrow>
          u = [] \<or>
          (case new_URL env u of
             None \<Rightarrow> True
           | Some p \<Rightarrow>
               protocol p \<notin> {''http:'', ''https:''} \<or> hostname p \<notin> set (ALLOWED_DOMAINS cfg)))"

subsection \<open>Sample inputs\<close>

definition sample_map :: "string \<Rightarrow> string option" where
  "sample_map = map_of [(''.py'', ''Python''), (''.ts'', ''TypeScript''), (''.md'', ''Markdown'')]"

definition small_tree :: node where
  "small_tree =
     Dir [(''a.py'', File [CHR ''x'', LF, CHR ''y'', CR, LF, CHR ''z'']),
          (''README'', File ''hello''),
          (''sub'', Dir [(''Dockerfile'', File []), (''b.PY'', File [CHR ''1'', CR, CHR ''2''])])]"

definition emfile :: js_error where
  "emfile = JsError ''Error'' ''EMFILE: too many open files'' (Some ''EMFILE'')"

definition enoent :: js_error where
  "enoent = JsError ''Error'' ''ENOENT: no such file or directory'' (Some ''ENOENT'')"

definition sample_env :: env where
  "sample_env =
     \<lparr>new_URL = simple_URL,
      mkdtemp = Return ''/tmp/howmanylines-1'',
      deadline = NotReached,
      clone_result = Return (1000, small_tree),
      EXTENSION_MAP = sample_map\<rparr>"

definition sample_url :: string where
  "sample_url = ''https://github.com/a/b''"

text \<open>What the handler answers for \<open>small_tree\<close>.\<close>

definition sample_result :: jsval where
  "sample_result =
     JObj [(''stats'', JObj [(''Python'', JNum 5), (''Dockerfile'', JNum 1)]),
           (''totalLines'', JNum 6)]"

text \<open>A configuration with a negative minimum and a negative factor.\<close>

definition negative_config :: config where
  "negative_config =
     default_config\<lparr>CACHE_TTL_MIN_SECONDS := Num (- 100), CACHE_TTL_PER_BYTE := Num (- 1)\<rparr>"

text \<open>A configuration whose minimum is not a number.\<close>

definition nan_config :: config where
  "nan_config = default_config\<lparr>CACHE_TTL_MIN_SECONDS := NaN\<rparr>"

text \<open>A configuration without a minimum and with seven seconds for a hundred bytes.\<close>

definition percent_config :: config where
  "percent_config =
     default_config\<lparr>CACHE_TTL_MIN_SECONDS := Num 0, CACHE_TTL_PER_BYTE := Num (7 / 100)\<rparr>"

text \<open>The sample repository when its clone downloads a hundred bytes.\<close>

definition light_env :: env where
  "light_env = sample_env\<lparr>clone_result := Return (100, small_tree)\<rparr>"

text \<open>What \<^verbatim>\<open>request.json()\<close> throws on an empty body.\<close>

definition json_error :: js_error where
  "json_error = JsError ''SyntaxError'' ''Unexpected end of JSON input'' None"

text \<open>The calls that a recording service holds in the result of a request.\<close>

definition recorded :: "response \<times> ('s \<times> cache_call list) \<times> event list \<Rightarrow> cache_call list" where
  "recorded r = snd (fst (snd r))"

section \<open>Properties of the in-process cache\<close>

lemma find_lru_delete [simp]: "find (\<lambda>e. ekey e = k) (lru_delete c k) = None"
  by (simp add: lru_delete_def find_None_iff)

lemma lru_get_after_set:
  assumes "now' - now \<le> mem_entry_ttl ttl"
  shows "fst (lru_get now' (mem_set now c k v ttl) k) = v"
proof (cases "v = JUndefined")
  case True
  then show ?thesis by (simp add: mem_set_def lru_set_def lru_get_def)
next
  case False
  with assms show ?thesis
    by (auto simp: mem_set_def mem_entry_ttl_def lru_get_def lru_set_def lru_max_def
        is_stale_def split: option.splits)
qed

lemma mem_get_after_set:
  assumes "now' - now \<le> mem_entry_ttl ttl"
  shows "fst (mem_get now' (mem_set now c k v ttl) k) = (if truthy v then v else JNull)"
proof -
  have "fst (lru_get now' (mem_set now c k v ttl) k) = v"
    using assms by (rule lru_get_after_set)
  then show ?thesis
    by (simp add: mem_get_def split_def Let_def)
qed

text \<open>
  Claim C10. A value written by \<open>set\<close> and read by \<open>get\<close> for the same key before its
  time to live has passed comes back as null when it is falsy (0, the empty string, false,
  null, undefined), and unchanged when it is truthy.
\<close>

theorem memory_get_after_set:
  assumes "now' - now \<le> mem_entry_ttl ttl"
  shows "fst (mem_get now' (mem_set now c k v ttl) k) = (if truthy v then v else JNull)"
  using assms by (rule mem_get_after_set)

theorem memory_get_after_set_witness:
  "fst (mem_get 5000 (mem_set 0 [] ''k'' (JNum 0) (Some 60)) ''k'') = JNull
   \<and> fst (mem_get 5000 (mem_set 0 [] ''k'' (JStr []) (Some 60)) ''k'') = JNull
   \<and> fst (mem_get 5000 (mem_set 0 [] ''k'' (JBool False) (Some 60)) ''k'') = JNull
   \<and> fst (mem_get 5000 (mem_set 0 [] ''k'' (JNum 7) (Some 60)) ''k'') = JNum 7"
  using memory_get_after_set [of 5000 0 "Some 60" "[]" "''k''" "JNum 0"]
    memory_get_after_set [of 5000 0 "Some 60" "[]" "''k''" "JStr []"]
    memory_get_after_set [of 5000 0 "Some 60" "[]" "''k''" "JBool False"]
    memory_get_after_set [of 5000 0 "Some 60" "[]" "''k''" "JNum 7"]
  by (simp add: mem_entry_ttl_def mem_ttl_ms_def)

section \<open>Properties of the retrying wrapper\<close>

lemma retry_loop_stops:
  assumes "retries = 0 \<or> \<not> fails_transiently (fn i)"
  shows "retry_loop fn i retries delay = (fn i, Suc i, [])"
  using assms
  by (cases "fn i") (auto simp: retry_loop.simps [of fn i] fails_transiently_def)

lemma retry_loop_again:
  assumes "0 < retries" and "fails_transiently (fn i)"
  shows "retry_loop fn i retries delay =
           (case retry_loop fn (Suc i) (retries - 1) (delay * 2) of (r, n, ds) \<Rightarrow> (r, n, delay # ds))"
  using assms
  by (cases "fn i") (auto simp: retry_loop.simps [of fn i] fails_transiently_def)

text \<open>
  The loop started at call \<open>i\<close> with \<open>retries\<close> left: when the next \<open>n\<close> calls fail
  transiently and either the budget is then used up or call \<open>i + n\<close> does anything else,
  the loop ends with what call \<open>i + n\<close> did, after \<open>n\<close> delays that double.
\<close>

lemma retry_loop_run:
  assumes "n \<le> retries"
    and "\<forall>j<n. fails_transiently (fn (i + j))"
    and "n = retries \<or> \<not> fails_transiently (fn (i + n))"
  shows "retry_loop fn i retries delay =
           (fn (i + n), Suc (i + n), map (\<lambda>k. delay * 2 ^ k) [0..<n])"
  using assms
proof (induction n arbitrary: i retries delay)
  case 0
  then show ?case by (simp add: retry_loop_stops)
next
  case (Suc n)
  from Suc.prems have pos: "0 < retries" and first: "fails_transiently (fn i)"
    by auto
  have le: "n \<le> retries - 1"
    using Suc.prems(1) by simp
  have run: "\<forall>j<n. fails_transiently (fn (Suc i + j))"
    using Suc.prems(2) by (metis Suc_less_eq add_Suc_shift)
  have last: "n = retries - 1 \<or> \<not> fails_transiently (fn (Suc i + n))"
    using Suc.prems(3) by auto
  have "retry_loop fn (Suc i) (retries - 1) (delay * 2) =
          (fn (Suc i + n), Suc (Suc i + n), map (\<lambda>k. delay * 2 * 2 ^ k) [0..<n])"
    by (rule Suc.IH [OF le run last])
  with pos first show ?case
    by (simp add: retry_loop_again map_upt_Suc del: upt_Suc)
qed

text \<open>
  Claim C6. Invoked with the signal not aborted, the wrapper calls the operation until a
  call succeeds or fails with anything but EMFILE or ENFILE, or until ten retries are
  used up: with \<open>n \<le> 10\<close> transient failures first, it makes \<open>n + 1\<close> calls, sleeps
  100, 200, ..., \<open>100 * 2 ^ (n - 1)\<close> between them, and ends with whatever the last call
  did (its value, or its error thrown on). Invoked with the signal aborted, it throws the
  cancellation error without calling the operation and without sleeping.
\<close>

theorem wrapGraceful_retry_policy:
  "(n \<le> 10 \<and> (\<forall>j<n. fails_transiently (fn j)) \<and> (n = 10 \<or> \<not> fails_transiently (fn n)) \<longrightarrow>
      wrapGraceful False fn = (fn n, Suc n, map (\<lambda>k. 100 * 2 ^ k) [0..<n]))
   \<and> wrapGraceful True fn = (Throw abort_error, 0, [])"
  using retry_loop_run [of n 10 fn 0 100]
  by (simp add: wrapGraceful_def)

theorem wrapGraceful_retry_policy_witness:
  "wrapGraceful False (\<lambda>i. if i < 3 then Throw emfile else Return (7::nat))
     = (Return 7, 4, [100, 200, 400])
   \<and> wrapGraceful False (\<lambda>i. Throw emfile :: nat completion)
     = (Throw emfile, 11, [100, 200, 400, 800, 1600, 3200, 6400, 12800, 25600, 51200])
   \<and> wrapGraceful False (\<lambda>i. Throw enoent :: nat completion) = (Throw enoent, 1, [])
   \<and> wrapGraceful True (\<lambda>i. Return (7::nat)) = (Throw abort_error, 0, [])"
  using wrapGraceful_retry_policy [of 3 "\<lambda>i. if i < 3 then Throw emfile else Return (7::nat)"]
    wrapGraceful_retry_policy [of 10 "\<lambda>i. Throw emfile :: nat completion"]
    wrapGraceful_retry_policy [of 0 "\<lambda>i. Throw enoent :: nat completion"]
    wrapGraceful_retry_policy [of 0 "\<lambda>i. Return (7::nat)"]
  by (simp add: fails_transiently_def is_transient_def emfile_def enoent_def upt_rec)

section \<open>Properties of the line count\<close>

lemma bare_CRs_Nil [simp]: "bare_CRs [] = 0"
  by (simp add: bare_CRs_def)

lemma bare_CRs_Cons:
  "bare_CRs (c # cs) =
     (if c = CR \<and> (case cs of [] \<Rightarrow> True | d # ds \<Rightarrow> d \<noteq> LF) then 1 else 0) + bare_CRs cs"
  by (cases cs) (simp_all add: bare_CRs_def)

lemma CR_neq_LF [simp]: "CR \<noteq> LF" "LF \<noteq> CR"
  by (simp_all add: CR_def LF_def)

lemma length_split_from: "length (split_from cur s) = segment_count s"
proof (induction cur s rule: split_from.induct)
  case (1 cur)
  then show ?case by (simp add: segment_count_def terminator_count_def)
next
  case (2 cur c cs)
  then show ?case
    by (cases cs) (auto simp: segment_count_def terminator_count_def bare_CRs_Cons)
qed

lemma length_split_lines: "length (split_lines content) = segment_count content"
  by (simp add: split_lines_def length_split_from)

lemma count_file_add_lines:
  "count_file lang content st = add_lines lang (int (segment_count content)) st"
  by (simp add: count_file_def add_lines_def Let_def length_split_lines)

lemma segment_count_examples:
  "segment_count [] = 1"
  "segment_count [CHR ''x'', LF, CHR ''y'', CR, LF, CHR ''z''] = 3"
  "segment_count [CHR ''1'', CR, CHR ''2'', LF] = 3"
  by (simp_all add: segment_count_def terminator_count_def bare_CRs_def CR_def LF_def)

section \<open>Properties of the traversal\<close>

lemma or_zero_Some [simp]: "or_zero (Some v) = v"
  by (simp add: or_zero_def)

lemma or_zero_None [simp]: "or_zero None = 0"
  by (simp add: or_zero_def)

lemma map_fst_set_prop:
  "map fst (set_prop k v ps) = (if k \<in> set (map fst ps) then map fst ps else map fst ps @ [k])"
  by (induction ps) force+

lemma distinct_set_prop: "distinct (map fst ps) \<Longrightarrow> distinct (map fst (set_prop k v ps))"
  by (simp add: map_fst_set_prop)

lemma sum_set_prop:
  "sum_list (map snd (set_prop k (or_zero (map_of ps k) + n) ps)) = sum_list (map snd ps) + n"
  by (induction ps) auto

lemma or_zero_nonneg: "list_all (\<lambda>(k, v). 0 \<le> v) ps \<Longrightarrow> 0 \<le> or_zero (map_of ps k)"
  by (induction ps) auto

lemma nonneg_set_prop:
  "list_all (\<lambda>(k, v). 0 \<le> v) ps \<Longrightarrow> 0 \<le> v \<Longrightarrow> list_all (\<lambda>(k, v). 0 \<le> v) (set_prop k v ps)"
  by (induction ps) auto

lemma consistent_record_call [simp]: "consistent (record_call f r p b st) = consistent st"
  by (simp add: consistent_def record_call_def)

lemma consistent_count_file: "consistent st \<Longrightarrow> consistent (count_file lang content st)"
  by (simp add: consistent_def count_file_def Let_def sum_set_prop distinct_set_prop
      nonneg_set_prop or_zero_nonneg)

lemma consistent_init: "consistent init_state"
  by (simp add: consistent_def init_state_def)

text \<open>
  Whatever the four kinds of step of the traversal preserve, the traversal preserves, also
  when it ends by throwing.
\<close>

lemma traverse_visit_preserve:
  assumes rd: "\<And>p st. I st \<Longrightarrow> I (record_call Readdir PlainFs p False st)"
    and stt: "\<And>p st. I st \<Longrightarrow> I (record_call Stat PlainFs p True st)"
    and rf: "\<And>p st. I st \<Longrightarrow> I (record_call ReadFile PlainFs p True st)"
    and cf: "\<And>lang content st. I st \<Longrightarrow> I (count_file lang content st)"
  shows "I st \<Longrightarrow> I (snd (traverse tbl p n st))"
    and "I st \<Longrightarrow> I (snd (visit tbl p es st))"
proof (induction tbl p n st and tbl p es st rule: traverse_visit.induct)
  case (8 tbl currentPath f n rest st)
  show ?case
  proof (cases "f = ''.git''")
    case True
    with "8.IH"(1) "8.prems" show ?thesis by simp
  next
    case False
    define x where "x = path_join currentPath f"
    define xa where "xa = record_call Stat PlainFs x True st"
    have Ixa: "I xa"
      using "8.prems" by (simp add: xa_def stt)
    show ?thesis
    proof (cases n)
      case (File content)
      show ?thesis
      proof (cases "languageName tbl f")
        case None
        from "8.IH"(2) [OF False x_def xa_def File None Ixa] False File None
        show ?thesis by (simp add: Let_def x_def xa_def)
      next
        case (Some lang)
        have "I (count_file lang content (record_call ReadFile PlainFs x True xa))"
          using Ixa by (simp add: rf cf)
        from "8.IH"(3) [OF False x_def xa_def File Some this] False File Some
        show ?thesis by (simp add: Let_def x_def xa_def)
      qed
    next
      case (UnreadableFile e)
      show ?thesis
      proof (cases "languageName tbl f")
        case None
        from "8.IH"(4) [OF False x_def xa_def UnreadableFile None Ixa] False UnreadableFile None
        show ?thesis by (simp add: Let_def x_def xa_def)
      next
        case (Some lang)
        have "I (record_call ReadFile PlainFs x True xa)"
          using Ixa by (simp add: rf)
        from "8.IH"(5) [OF False x_def xa_def UnreadableFile Some this] False UnreadableFile Some
        show ?thesis by (simp add: Let_def x_def xa_def)
      qed
    next
      case (Dir files)
      have sub: "I (snd (traverse tbl x n xa))"
        by (rule "8.IH"(6) [OF False x_def xa_def Dir Ixa])
      show ?thesis
      proof (cases "traverse tbl x n xa")
        case (Pair r y)
        show ?thesis
        proof (cases r)
          case None
          from "8.IH"(7) [OF False x_def xa_def Dir Pair [symmetric] None] sub Pair
          have "I (snd (visit tbl currentPath rest y))" by simp
          with False Dir Pair None show ?thesis
            by (simp add: Let_def x_def [symmetric] xa_def [symmetric])
        next
          case (Some e)
          with False Dir Pair sub show ?thesis
            by (simp add: Let_def x_def [symmetric] xa_def [symmetric])
        qed
      qed
    next
      case (UnlistableDir e)
      have sub: "I (snd (traverse tbl x n xa))"
        by (rule "8.IH"(8) [OF False x_def xa_def UnlistableDir Ixa])
      show ?thesis
      proof (cases "traverse tbl x n xa")
        case (Pair r y)
        show ?thesis
        proof (cases r)
          case None
          from "8.IH"(9) [OF False x_def xa_def UnlistableDir Pair [symmetric] None] sub Pair
          have "I (snd (visit tbl currentPath rest y))" by simp
          with False UnlistableDir Pair None show ?thesis
            by (simp add: Let_def x_def [symmetric] xa_def [symmetric])
        next
          case (Some e')
          with False UnlistableDir Pair sub show ?thesis
            by (simp add: Let_def x_def [symmetric] xa_def [symmetric])
        qed
      qed
    next
      case Other
      from "8.IH"(10) [OF False x_def xa_def Other Ixa] False Other
      show ?thesis by (simp add: Let_def x_def xa_def)
    next
      case (NoStat e)
      with False Ixa show ?thesis by (simp add: Let_def x_def xa_def)
    qed
  qed
qed (simp_all add: rd)

lemma consistent_traverse: "consistent st \<Longrightarrow> consistent (snd (traverse tbl p n st))"
  by (rule traverse_visit_preserve(1) [where I = consistent])
    (simp_all add: consistent_count_file)

lemma calls_ok_traverse: "calls_ok st \<Longrightarrow> calls_ok (snd (traverse tbl dir tree st))"
  by (rule traverse_visit_preserve(1) [where I = calls_ok])
    (simp_all add: calls_ok_def record_call_def call_ok_def count_file_def Let_def)

lemma small_tree_run:
  "traverse sample_map ''/r'' small_tree init_state =
     (None,
      \<lparr>stats = [(''Python'', 5), (''Dockerfile'', 1)], totalLines = 6,
       calls =
         [\<lparr>fs_op = Readdir, fs_receiver = PlainFs, fs_path = ''/r'', fs_limited = False\<rparr>,
          \<lparr>fs_op = Stat, fs_receiver = PlainFs, fs_path = ''/r/a.py'', fs_limited = True\<rparr>,
          \<lparr>fs_op = ReadFile, fs_receiver = PlainFs, fs_path = ''/r/a.py'', fs_limited = True\<rparr>,
          \<lparr>fs_op = Stat, fs_receiver = PlainFs, fs_path = ''/r/README'', fs_limited = True\<rparr>,
          \<lparr>fs_op = Stat, fs_receiver = PlainFs, fs_path = ''/r/sub'', fs_limited = True\<rparr>,
          \<lparr>fs_op = Readdir, fs_receiver = PlainFs, fs_path = ''/r/sub'', fs_limited = False\<rparr>,
          \<lparr>fs_op = Stat, fs_receiver = PlainFs, fs_path = ''/r/sub/Dockerfile'', fs_limited = True\<rparr>,
          \<lparr>fs_op = ReadFile, fs_receiver = PlainFs, fs_path = ''/r/sub/Dockerfile'', fs_limited = True\<rparr>,
          \<lparr>fs_op = Stat, fs_receiver = PlainFs, fs_path = ''/r/sub/b.PY'', fs_limited = True\<rparr>,
          \<lparr>fs_op = ReadFile, fs_receiver = PlainFs, fs_path = ''/r/sub/b.PY'', fs_limited = True\<rparr>]\<rparr>)"
  by code_simp

text \<open>
  Claim C5. A regular file that is classified and whose read succeeds adds to its
  language and to the total the number of segments of its content, one more than the
  number of its terminators (CRLF, bare CR, bare LF), which is the length of what
  \<^verbatim>\<open>split\<close> returns; an empty content has one segment.
\<close>

theorem classified_file_line_count:
  "(f \<noteq> ''.git'' \<and> languageName tbl f = Some lang \<longrightarrow>
      visit tbl dir ((f, File content) # rest) st =
        visit tbl dir rest
          (add_lines lang (int (segment_count content))
            (record_call ReadFile PlainFs (path_join dir f) True
              (record_call Stat PlainFs (path_join dir f) True st))))
   \<and> length (split_lines content) = segment_count content
   \<and> segment_count [] = 1"
  by (simp add: Let_def count_file_add_lines length_split_lines segment_count_def
      terminator_count_def)

theorem classified_file_line_count_witness:
  "visit sample_map ''/r'' [(''a.py'', File [CHR ''x'', LF, CHR ''y'', CR, LF, CHR ''z''])] init_state =
     (None,
      \<lparr>stats = [(''Python'', 3)], totalLines = 3,
       calls =
         [\<lparr>fs_op = Stat, fs_receiver = PlainFs, fs_path = ''/r/a.py'', fs_limited = True\<rparr>,
          \<lparr>fs_op = ReadFile, fs_receiver = PlainFs, fs_path = ''/r/a.py'', fs_limited = True\<rparr>]\<rparr>)
   \<and> segment_count [] = 1"
proof -
  have ne: "''a.py'' \<noteq> ''.git''" by simp
  have lang: "languageName sample_map ''a.py'' = Some ''Python''"
    by (simp add: languageName_def sample_map_def extname_def toLowerCase_def lower_char_def)
  note fact = classified_file_line_count [of "''a.py''" sample_map "''Python''" "''/r''"
      "[CHR ''x'', LF, CHR ''y'', CR, LF, CHR ''z'']" "[]" init_state]
  have "visit sample_map ''/r'' [(''a.py'', File [CHR ''x'', LF, CHR ''y'', CR, LF, CHR ''z''])] init_state =
          visit sample_map ''/r'' []
            (add_lines ''Python'' (int (segment_count [CHR ''x'', LF, CHR ''y'', CR, LF, CHR ''z'']))
              (record_call ReadFile PlainFs (path_join ''/r'' ''a.py'') True
                (record_call Stat PlainFs (path_join ''/r'' ''a.py'') True init_state)))"
    using fact ne lang by blast
  also have "\<dots> =
      (None,
       \<lparr>stats = [(''Python'', 3)], totalLines = 3,
        calls =
          [\<lparr>fs_op = Stat, fs_receiver = PlainFs, fs_path = ''/r/a.py'', fs_limited = True\<rparr>,
           \<lparr>fs_op = ReadFile, fs_receiver = PlainFs, fs_path = ''/r/a.py'', fs_limited = True\<rparr>]\<rparr>)"
    by (simp add: segment_count_examples add_lines_def record_call_def init_state_def path_join_def)
  finally have first: "visit sample_map ''/r'' [(''a.py'', File [CHR ''x'', LF, CHR ''y'', CR, LF, CHR ''z''])] init_state =
      (None,
       \<lparr>stats = [(''Python'', 3)], totalLines = 3,
        calls =
          [\<lparr>fs_op = Stat, fs_receiver = PlainFs, fs_path = ''/r/a.py'', fs_limited = True\<rparr>,
           \<lparr>fs_op = ReadFile, fs_receiver = PlainFs, fs_path = ''/r/a.py'', fs_limited = True\<rparr>]\<rparr>)" .
  have second: "segment_count [] = 1"
    using fact by blast
  from first second show ?thesis by (rule conjI)
qed

text \<open>
  Claim C4. When the traversal of a tree, started on empty counters, ends without
  throwing, the total equals the sum of the counts of all languages, no count is negative,
  and every language has one entry.
\<close>

theorem traverse_total_is_sum:
  assumes "traverse tbl dir tree init_state = (None, st)"
  shows "totalLines st = sum_list (map snd (stats st))
         \<and> list_all (\<lambda>(k, v). 0 \<le> v) (stats st)
         \<and> distinct (map fst (stats st))"
proof -
  have "consistent (snd (traverse tbl dir tree init_state))"
    by (rule consistent_traverse [OF consistent_init])
  with assms show ?thesis
    by (simp add: consistent_def)
qed

theorem traverse_total_is_sum_witness:
  "traverse sample_map ''/r'' small_tree init_state =
     (None, snd (traverse sample_map ''/r'' small_tree init_state))
   \<and> totalLines (snd (traverse sample_map ''/r'' small_tree init_state)) = 6
   \<and> sum_list (map snd (stats (snd (traverse sample_map ''/r'' small_tree init_state)))) = 6
   \<and> list_all (\<lambda>(k, v). 0 \<le> v) (stats (snd (traverse sample_map ''/r'' small_tree init_state)))"
proof -
  have run: "traverse sample_map ''/r'' small_tree init_state =
      (None, snd (traverse sample_map ''/r'' small_tree init_state))"
    by (simp add: small_tree_run)
  have total: "totalLines (snd (traverse sample_map ''/r'' small_tree init_state)) = 6"
    by (simp add: small_tree_run)
  from traverse_total_is_sum [OF run] run total show ?thesis
    by simp
qed

text \<open>
  Claim C9. A file named exactly Dockerfile gets the language Dockerfile whatever the
  table says, and its lines are counted under that key; any other file gets the language
  the table gives for its lower-cased extension; a file that gets a language has its lines
  counted under it; a file that gets none is passed over after its \<open>stat\<close>: it is not
  read, and the counters are as they were.
\<close>

theorem file_classification:
  "languageName tbl ''Dockerfile'' = Some ''Dockerfile''
   \<and> (f \<noteq> ''Dockerfile'' \<longrightarrow> languageName tbl f = tbl (toLowerCase (extname f)))
   \<and> visit tbl dir ((''Dockerfile'', File content) # rest) st =
       visit tbl dir rest
         (add_lines ''Dockerfile'' (int (segment_count content))
           (record_call ReadFile PlainFs (path_join dir ''Dockerfile'') True
             (record_call Stat PlainFs (path_join dir ''Dockerfile'') True st)))
   \<and> (f \<noteq> ''.git'' \<and> languageName tbl f = Some lang \<longrightarrow>
       visit tbl dir ((f, File content) # rest) st =
         visit tbl dir rest
           (add_lines lang (int (segment_count content))
             (record_call ReadFile PlainFs (path_join dir f) True
               (record_call Stat PlainFs (path_join dir f) True st))))
   \<and> (f \<noteq> ''.git'' \<and> languageName tbl f = None \<longrightarrow>
       visit tbl dir ((f, File content) # rest) st =
         visit tbl dir rest (record_call Stat PlainFs (path_join dir f) True st))"
  by (auto simp: Let_def count_file_add_lines languageName_def split: option.splits)

theorem file_classification_witness:
  "languageName sample_map ''Dockerfile'' = Some ''Dockerfile''
   \<and> languageName sample_map ''b.PY'' = Some ''Python''
   \<and> languageName sample_map ''README'' = None
   \<and> visit sample_map ''/r'' [(''README'', File ''hello'')] init_state =
       (None, \<lparr>stats = [], totalLines = 0,
          calls = [\<lparr>fs_op = Stat, fs_receiver = PlainFs, fs_path = ''/r/README'', fs_limited = True\<rparr>]\<rparr>)
   \<and> visit sample_map ''/r'' [(''Dockerfile'', File [])] init_state =
       (None, \<lparr>stats = [(''Dockerfile'', 1)], totalLines = 1,
          calls = [\<lparr>fs_op = Stat, fs_receiver = PlainFs, fs_path = ''/r/Dockerfile'', fs_limited = True\<rparr>,
                   \<lparr>fs_op = ReadFile, fs_receiver = PlainFs, fs_path = ''/r/Dockerfile'', fs_limited = True\<rparr>]\<rparr>)"
proof -
  have ext: "toLowerCase (extname ''b.PY'') = ''.py''" "toLowerCase (extname ''README'') = []"
    by (simp_all add: extname_def toLowerCase_def lower_char_def)
  have tbl: "sample_map ''.py'' = Some ''Python''" "sample_map [] = None"
    by (simp_all add: sample_map_def)
  from file_classification [of sample_map "''b.PY''" "''/r''" "[]" "[]" init_state "''Python''"]
    file_classification [of sample_map "''README''" "''/r''" "''hello''" "[]" init_state "''Python''"]
  show ?thesis
    by (simp add: ext tbl segment_count_examples add_lines_def record_call_def init_state_def
        path_join_def)
qed

text \<open>
  Claim C1, as stated: every call of the traversal is made inside the limiter and on the
  wrapped filesystem. It fails on a tree of two files and a subdirectory.
\<close>

theorem traverse_calls_counterexample:
  "\<not> list_all guarded (calls (snd (traverse sample_map ''/r'' small_tree init_state)))"
  by (simp add: small_tree_run guarded_def)

text \<open>
  Claim C1, amended. Every \<open>stat\<close> and every file read of the traversal is made inside
  the limiter, and every call of the traversal, the listing included, is made on the
  plain filesystem module, not on the wrapped one.
\<close>

theorem traverse_calls:
  "list_all call_ok (calls (snd (traverse tbl dir tree init_state)))"
proof -
  have "calls_ok init_state"
    by (simp add: calls_ok_def init_state_def)
  then have "calls_ok (snd (traverse tbl dir tree init_state))"
    by (rule calls_ok_traverse)
  then show ?thesis
    by (simp add: calls_ok_def)
qed

theorem traverse_calls_witness:
  "list_all call_ok (calls (snd (traverse sample_map ''/r'' small_tree init_state)))
   \<and> length (calls (snd (traverse sample_map ''/r'' small_tree init_state))) = 10"
  using traverse_calls [of sample_map "''/r''" small_tree]
  by (simp add: small_tree_run)

section \<open>Properties of the numbers\<close>

lemma round_half_even_int [simp]: "round_half_even (of_int n) = n"
  by (simp add: round_half_even_def)

lemma round_half_even_bounds: "\<lfloor>x\<rfloor> \<le> round_half_even x" "round_half_even x \<le> \<lfloor>x\<rfloor> + 1"
  by (simp_all add: round_half_even_def Let_def)

lemma round_half_even_mono:
  assumes "x \<le> y"
  shows "round_half_even x \<le> round_half_even y"
proof (cases "\<lfloor>x\<rfloor> = \<lfloor>y\<rfloor>")
  case True
  with assms have "x - of_int \<lfloor>x\<rfloor> \<le> y - of_int \<lfloor>y\<rfloor>"
    by simp
  with True show ?thesis
    by (auto simp: round_half_even_def Let_def)
next
  case False
  with assms have "\<lfloor>x\<rfloor> < \<lfloor>y\<rfloor>"
    using floor_mono [of x y] by linarith
  with round_half_even_bounds(2) [of x] round_half_even_bounds(1) [of y] show ?thesis
    by linarith
qed

lemma exponent_bounds:
  assumes "0 < x"
  shows "2 powi exponent x \<le> x" and "x < 2 powi (exponent x + 1)"
proof -
  show "2 powi exponent x \<le> x"
  proof (cases "1 \<le> x")
    case True
    define n where "n = nat \<lfloor>x\<rfloor>"
    from True have n: "0 < n" "real n \<le> x"
      by (simp_all add: n_def)
    from floorlog_bounds [OF n(1), of 2] have "2 ^ (floorlog 2 n - 1) \<le> n"
      by simp
    then have "real (2 ^ (floorlog 2 n - 1)) \<le> real n"
      by (simp only: of_nat_le_iff)
    then have "(2::real) ^ (floorlog 2 n - 1) \<le> real n"
      by (simp only: of_nat_power of_nat_numeral)
    with n(2) have le: "(2::real) ^ (floorlog 2 n - 1) \<le> x"
      by linarith
    have "0 < floorlog 2 n"
      using n(1) by (simp add: floorlog_def)
    then have "(2::real) powi exponent x = 2 ^ (floorlog 2 n - 1)"
      using True by (simp add: exponent_def n_def [symmetric] power_int_def nat_diff_distrib)
    with le show ?thesis
      by simp
  next
    case False
    define m where "m = nat \<lceil>1 / x\<rceil>"
    from False assms have big: "1 < 1 / x"
      by (simp add: field_simps)
    then have m: "2 \<le> m" "1 / x \<le> real m"
      by (simp_all add: m_def le_nat_iff)
    then have pos: "0 < m - 1"
      by simp
    from floorlog_bounds [OF pos, of 2] have "m - 1 < 2 ^ floorlog 2 (m - 1)"
      by simp
    then have "m \<le> 2 ^ floorlog 2 (m - 1)"
      by simp
    then have "real m \<le> real (2 ^ floorlog 2 (m - 1))"
      by (simp only: of_nat_le_iff)
    then have "real m \<le> 2 ^ floorlog 2 (m - 1)"
      by (simp only: of_nat_power of_nat_numeral)
    with m(2) have "1 / x \<le> 2 ^ floorlog 2 (m - 1)"
      by linarith
    with assms have "1 / 2 ^ floorlog 2 (m - 1) \<le> x"
      by (simp add: field_simps)
    with False show ?thesis
      by (simp add: exponent_def m_def [symmetric] power_int_minus field_simps)
  qed
  show "x < 2 powi (exponent x + 1)"
  proof (cases "1 \<le> x")
    case True
    define n where "n = nat \<lfloor>x\<rfloor>"
    from True have n: "0 < n" "x < real n + 1"
      by (simp_all add: n_def)
    from floorlog_bounds [OF n(1), of 2] have "n < 2 ^ floorlog 2 n"
      by simp
    then have "n + 1 \<le> 2 ^ floorlog 2 n"
      by simp
    then have "real (n + 1) \<le> real (2 ^ floorlog 2 n)"
      by (simp only: of_nat_le_iff)
    then have "real n + 1 \<le> 2 ^ floorlog 2 n"
      by (simp only: of_nat_add of_nat_1 of_nat_power of_nat_numeral)
    with n(2) have "x < 2 ^ floorlog 2 n"
      by linarith
    with True show ?thesis
      by (simp add: exponent_def n_def [symmetric] power_int_def)
  next
    case False
    define m where "m = nat \<lceil>1 / x\<rceil>"
    define k where "k = floorlog 2 (m - 1)"
    from False assms have big: "1 < 1 / x"
      by (simp add: field_simps)
    then have m: "2 \<le> m" "real m - 1 < 1 / x"
      by (simp_all add: m_def le_nat_iff) linarith
    then have pos: "0 < m - 1"
      by simp
    then have kpos: "0 < k"
      by (simp add: k_def floorlog_def)
    from floorlog_bounds [OF pos, of 2] have "2 ^ (k - 1) \<le> m - 1"
      by (simp add: k_def)
    then have "real (2 ^ (k - 1)) \<le> real (m - 1)"
      by (simp only: of_nat_le_iff)
    then have "(2::real) ^ (k - 1) \<le> real (m - 1)"
      by (simp only: of_nat_power of_nat_numeral)
    moreover have "real (m - 1) = real m - 1"
      using m(1) by (simp add: of_nat_diff)
    ultimately have "(2::real) ^ (k - 1) < 1 / x"
      using m(2) by linarith
    with assms have "x < 1 / 2 ^ (k - 1)"
      by (simp add: field_simps)
    moreover have "(2::real) powi (- int k + 1) = 1 / 2 ^ (k - 1)"
      using kpos by (simp add: power_int_def nat_diff_distrib field_simps)
    moreover have "exponent x = - int k"
      using False by (simp add: exponent_def m_def k_def)
    ultimately show ?thesis
      by simp
  qed
qed


lemma exponent_mono:
  assumes "0 < x" and "x \<le> y"
  shows "exponent x \<le> exponent y"
proof (rule ccontr)
  assume "\<not> exponent x \<le> exponent y"
  then have "exponent y + 1 \<le> exponent x"
    by simp
  then have "(2::real) powi (exponent y + 1) \<le> 2 powi exponent x"
    by (simp add: power_int_increasing)
  with exponent_bounds(1) [OF assms(1)] exponent_bounds(2) [of y] assms show False
    by linarith
qed

lemma two_powi_pos [simp]: "0 < (2::real) powi k"
  by (simp add: power_int_def)

lemma round_pos_upper:
  assumes "0 < x"
  shows "round_pos x \<le> 2 powi (ulp_exponent x + 53)"
proof -
  have "x < 2 powi (exponent x + 1)"
    by (rule exponent_bounds(2) [OF assms])
  also have "\<dots> \<le> 2 powi (ulp_exponent x + 53)"
    by (simp add: ulp_exponent_def power_int_increasing)
  also have "\<dots> = 2 ^ 53 * 2 powi ulp_exponent x"
    by (simp add: power_int_add)
  finally have "x / 2 powi ulp_exponent x \<le> of_int (2 ^ 53)"
    by (simp add: field_simps)
  then have "round_half_even (x / 2 powi ulp_exponent x) \<le> round_half_even (of_int (2 ^ 53))"
    by (rule round_half_even_mono)
  then have "round_half_even (x / 2 powi ulp_exponent x) \<le> 2 ^ 53"
    by (simp only: round_half_even_int)
  then have "real_of_int (round_half_even (x / 2 powi ulp_exponent x)) \<le> 2 ^ 53"
    by (metis of_int_le_iff of_int_numeral of_int_power)
  then have "round_pos x \<le> 2 ^ 53 * 2 powi ulp_exponent x"
    by (simp add: round_pos_def)
  then show ?thesis
    by (simp add: power_int_add)
qed

lemma round_pos_lower:
  assumes "0 < x" and "- 1022 \<le> exponent x"
  shows "2 powi (ulp_exponent x + 52) \<le> round_pos x"
proof -
  have u: "ulp_exponent x + 52 = exponent x"
    using assms(2) by (simp add: ulp_exponent_def)
  have "(2::real) ^ 52 * 2 powi ulp_exponent x = 2 powi (ulp_exponent x + 52)"
    by (simp add: power_int_add)
  also have "\<dots> \<le> x"
    using exponent_bounds(1) [OF assms(1)] by (simp only: u)
  finally have "of_int (2 ^ 52) \<le> x / 2 powi ulp_exponent x"
    by (simp add: field_simps)
  then have "round_half_even (of_int (2 ^ 52)) \<le> round_half_even (x / 2 powi ulp_exponent x)"
    by (rule round_half_even_mono)
  then have "2 ^ 52 \<le> round_half_even (x / 2 powi ulp_exponent x)"
    by (simp only: round_half_even_int)
  then have "2 ^ 52 \<le> real_of_int (round_half_even (x / 2 powi ulp_exponent x))"
    by (metis of_int_le_iff of_int_numeral of_int_power)
  then have "2 ^ 52 * 2 powi ulp_exponent x \<le> round_pos x"
    by (simp add: round_pos_def)
  then show ?thesis
    by (simp add: power_int_add)
qed

lemma round_pos_nonneg: "0 < x \<Longrightarrow> 0 \<le> round_pos x"
proof -
  assume "0 < x"
  then have "0 \<le> x / 2 powi ulp_exponent x"
    by simp
  then have "round_half_even (of_int 0) \<le> round_half_even (x / 2 powi ulp_exponent x)"
    by (intro round_half_even_mono) simp
  then show ?thesis
    by (simp add: round_pos_def del: round_half_even_int) (simp add: round_half_even_def)
qed

lemma round_pos_mono:
  assumes "0 < x" and "x \<le> y"
  shows "round_pos x \<le> round_pos y"
proof (cases "ulp_exponent x = ulp_exponent y")
  case True
  from assms have "x / 2 powi ulp_exponent y \<le> y / 2 powi ulp_exponent y"
    by (simp add: divide_right_mono)
  then have "round_half_even (x / 2 powi ulp_exponent y) \<le> round_half_even (y / 2 powi ulp_exponent y)"
    by (rule round_half_even_mono)
  then have "real_of_int (round_half_even (x / 2 powi ulp_exponent y))
      \<le> real_of_int (round_half_even (y / 2 powi ulp_exponent y))"
    by simp
  then show ?thesis
    by (simp add: round_pos_def True mult_right_mono)
next
  case False
  from assms have y: "0 < y"
    by simp
  have "exponent x \<le> exponent y"
    by (rule exponent_mono [OF assms])
  with False have lt: "ulp_exponent x < ulp_exponent y" and normal: "- 1022 \<le> exponent y"
    by (auto simp: ulp_exponent_def max_def split: if_splits)
  have "round_pos x \<le> 2 powi (ulp_exponent x + 53)"
    by (rule round_pos_upper [OF assms(1)])
  also have "\<dots> \<le> 2 powi (ulp_exponent y + 52)"
    using lt by (simp add: power_int_increasing)
  also have "\<dots> \<le> round_pos y"
    by (rule round_pos_lower [OF y normal])
  finally show ?thesis .
qed

lemma binary64_mono:
  assumes "0 \<le> x" and "x \<le> y"
  shows "js_le (binary64 x) (binary64 y)"
proof (cases "x = 0")
  case True
  with assms round_pos_nonneg [of y] show ?thesis
    by (auto simp: binary64_def)
next
  case False
  with assms have x: "0 < x" and y: "0 < y"
    by simp_all
  from round_pos_mono [OF x assms(2)] x y show ?thesis
    by (auto simp: binary64_def)
qed


lemma exponent_unique:
  assumes "2 powi k \<le> x" and "x < 2 powi (k + 1)"
  shows "exponent x = k"
proof -
  have pos: "0 < x"
    using assms(1) two_powi_pos [of k] by linarith
  note b = exponent_bounds [OF pos]
  have "\<not> exponent x < k"
  proof
    assume "exponent x < k"
    then have "(2::real) powi (exponent x + 1) \<le> 2 powi k"
      by (intro power_int_increasing) simp_all
    with b assms show False by linarith
  qed
  moreover have "\<not> k < exponent x"
  proof
    assume "k < exponent x"
    then have "(2::real) powi (k + 1) \<le> 2 powi exponent x"
      by (intro power_int_increasing) simp_all
    with b assms show False by linarith
  qed
  ultimately show ?thesis by linarith
qed

lemma binary64_normal:
  assumes "2 powi k \<le> x" and "x < 2 powi (k + 1)" and "- 1022 \<le> k" and "k < 1023"
  shows "binary64 x = Num (of_int (round_half_even (x / 2 powi (k - 52))) * 2 powi (k - 52))"
proof -
  have pos: "0 < x"
    using assms(1) two_powi_pos [of k] by linarith
  have e: "exponent x = k"
    using assms(1,2) by (rule exponent_unique)
  then have u: "ulp_exponent x = k - 52"
    using assms(3) by (simp add: ulp_exponent_def)
  have "ulp_exponent x + 53 = k + 1"
    using u by simp
  with round_pos_upper [OF pos] have "round_pos x \<le> 2 powi (k + 1)"
    by (simp only:)
  also have "\<dots> \<le> 2 powi 1023"
    using assms(4) by (intro power_int_increasing) simp_all
  also have "\<dots> = 2 ^ 1023"
    by (simp add: power_int_def)
  also have "\<dots> < (2::real) ^ 1024"
    by (rule power_strict_increasing) simp_all
  finally have "\<not> 2 ^ 1024 \<le> round_pos x"
    by simp
  with pos show ?thesis
    by (simp add: binary64_def round_pos_def u)
qed

lemma binary64_uminus:
  assumes "0 < x" and "binary64 x = Num r"
  shows "binary64 (- x) = Num (- r)"
  using assms by (auto simp: binary64_def split: if_splits)

lemma round_half_even_nearest:
  assumes "real_of_int m - 1 / 2 < x" and "x < real_of_int m + 1 / 2"
  shows "round_half_even x = m"
proof -
  have "\<lfloor>x\<rfloor> = m \<or> \<lfloor>x\<rfloor> = m - 1"
    using assms by linarith
  then show ?thesis
    using assms by (auto simp: round_half_even_def Let_def)
qed

lemma binary64_nearest:
  assumes "2 ^ 52 \<le> x * 2 ^ n" and "x * 2 ^ n < 2 ^ 53" and "n \<le> 1074"
    and "real_of_int m - 1 / 2 < x * 2 ^ n" and "x * 2 ^ n < real_of_int m + 1 / 2"
  shows "binary64 x = Num (real_of_int m / 2 ^ n)"
proof -
  have p: "(2::real) powi (52 - int n) = 2 ^ 52 / 2 ^ n"
    by (simp add: power_int_diff)
  have q: "(2::real) powi (52 - int n + 1) = 2 ^ 53 / 2 ^ n"
    by (simp add: power_int_diff power_int_add)
  have r: "(2::real) powi (52 - int n - 52) = 1 / 2 ^ n"
    by (simp add: power_int_minus divide_inverse)
  have "2 powi (52 - int n) \<le> x" and "x < 2 powi (52 - int n + 1)"
    using assms(1,2) unfolding p q by (simp_all add: field_simps)
  then have "binary64 x =
      Num (of_int (round_half_even (x / 2 powi (52 - int n - 52))) * 2 powi (52 - int n - 52))"
    using assms(3) by (intro binary64_normal) simp_all
  moreover have "round_half_even (x * 2 ^ n) = m"
    using assms(4,5) by (rule round_half_even_nearest)
  ultimately show ?thesis
    unfolding r by simp
qed

text \<open>The doubles of the sample configurations and their products.\<close>

lemma double_hundredth: "binary64 (1 / 100) = Num (5764607523034235 / 576460752303423488)"
  using binary64_nearest [of "1 / 100" 59 5764607523034235] by simp

lemma double_7_hundredths: "binary64 (7 / 100) = Num (1261007895663739 / 18014398509481984)"
  using binary64_nearest [of "7 / 100" 56 5044031582654956] by simp

lemma double_small: "binary64 1 = Num 1" "binary64 10 = Num 10" "binary64 20 = Num 20"
  using binary64_nearest [of 1 52 "2 ^ 52"] binary64_nearest [of 10 49 "10 * 2 ^ 49"]
    binary64_nearest [of 20 48 "20 * 2 ^ 48"]
  by simp_all

lemma double_negative:
  "binary64 (- 1) = Num (- 1)" "binary64 (- 10) = Num (- 10)" "binary64 (- 20) = Num (- 20)"
  using binary64_uminus [of 1 1] binary64_uminus [of 10 10] binary64_uminus [of 20 20]
  by (simp_all add: double_small)

lemma product_hundredth:
  "js_times (Num (real 1000)) (Num (5764607523034235 / 576460752303423488)) = Num 10"
  "js_times (Num (real 10000000)) (Num (5764607523034235 / 576460752303423488)) = Num 100000"
  "js_times (Num (real 20000000)) (Num (5764607523034235 / 576460752303423488)) = Num 200000"
  using binary64_nearest [of "1000 * (5764607523034235 / 576460752303423488)" 49 "10 * 2 ^ 49"]
    binary64_nearest [of "10000000 * (5764607523034235 / 576460752303423488)" 36 "100000 * 2 ^ 36"]
    binary64_nearest [of "20000000 * (5764607523034235 / 576460752303423488)" 35 "200000 * 2 ^ 35"]
  by simp_all

lemma product_7_hundredths:
  "js_times (Num (real 100)) (Num (1261007895663739 / 18014398509481984))
     = Num (7881299347898369 / 1125899906842624)"
  using binary64_nearest [of "100 * (1261007895663739 / 18014398509481984)" 50 7881299347898369]
  by simp

lemma product_negative:
  "js_times (Num (real 10)) (Num (- 1)) = Num (- 10)"
  "js_times (Num (real 20)) (Num (- 1)) = Num (- 20)"
  by (simp_all add: double_negative)

lemma binary64_not_NaN [simp]: "binary64 x \<noteq> NaN"
  by (simp add: binary64_def)

lemma js_ceil_NaN [simp]: "js_ceil x = NaN \<longleftrightarrow> x = NaN"
  by (cases x) simp_all

lemma js_ceil_mono: "js_le x y \<Longrightarrow> js_le (js_ceil x) (js_ceil y)"
  by (cases x; cases y) (simp_all add: ceiling_mono)

lemma js_max_mono: "m \<noteq> NaN \<Longrightarrow> js_le x y \<Longrightarrow> js_le (js_max m x) (js_max m y)"
  by (cases m; cases x; cases y) (auto simp: max_def)

lemma js_max_lower: "m \<noteq> NaN \<Longrightarrow> x \<noteq> NaN \<Longrightarrow> js_le m (js_max m x)"
  by (cases m; cases x) simp_all

section \<open>Properties of the request handler\<close>

subsection \<open>Validation\<close>

lemma validate_Inr: "validate cfg env r = Inr u \<Longrightarrow> r = Some u \<and> u \<noteq> []"
  by (auto simp: validate_def split: option.splits if_splits)

lemma validate_rejected:
  "rejected cfg env r \<longleftrightarrow> (\<exists>resp. validate cfg env r = Inl resp)"
  by (auto simp: validate_def rejected_def split: option.splits)

lemma validate_status: "validate cfg env r = Inl resp \<Longrightarrow> status resp = 400"
  by (auto simp: validate_def error_response_def split: option.splits if_splits)

text \<open>
  Claim C8, as stated: every request whose URL is missing is answered with status 400.
  A request with an empty body has no URL; reading its body throws, and the answer is
  status 500 with the message of the error.
\<close>

theorem missing_url_counterexample:
  "fst (POST default_config sample_env (MemoryCacheImpl 0) [] (BodyThrows json_error)) =
     error_response 500 ''Unexpected end of JSON input''"
  by (simp add: POST_def on_error_def is_abort_def json_error_def)

text \<open>
  Claim C8, amended. A request whose body parses to an object, and whose URL in that
  object is missing, does not parse, has a scheme other than http and https, or has a host
  outside the allow-list, is answered with status 400, whatever the cache is; the cache is
  left as it was and the request has no effect at all: no cache lookup, no cache write, no
  temporary directory, no clone.
\<close>

theorem invalid_url_rejected_early:
  assumes "rejected cfg env repoUrl"
  shows "status (fst (POST cfg env cache s (Body repoUrl))) = 400
         \<and> snd (POST cfg env cache s (Body repoUrl)) = (s, [])"
proof -
  from assms obtain resp where v: "validate cfg env repoUrl = Inl resp"
    by (auto simp: validate_rejected)
  then have "status resp = 400"
    by (rule validate_status)
  with v show ?thesis
    by (simp add: POST_def)
qed

lemma sample_rejected:
  "rejected default_config sample_env None"
  "rejected default_config sample_env (Some [])"
  "rejected default_config sample_env (Some ''not a url'')"
  "rejected default_config sample_env (Some ''ftp://github.com/a/b'')"
  "rejected default_config sample_env (Some ''https://evil.example/a/b'')"
  by (simp_all add: rejected_def sample_env_def default_config_def simple_URL_def toLowerCase_def
      lower_char_def is_host_char_def is_letter_def)

theorem invalid_url_rejected_early_witness:
  "status (fst (POST default_config sample_env (MemoryCacheImpl 0) [] (Body None))) = 400
   \<and> snd (POST default_config sample_env (MemoryCacheImpl 0) [] (Body None)) = ([], [])
   \<and> status (fst (POST default_config sample_env (MemoryCacheImpl 0) [] (Body (Some ''not a url'')))) = 400
   \<and> snd (POST default_config sample_env (MemoryCacheImpl 0) [] (Body (Some ''not a url''))) = ([], [])
   \<and> status (fst (POST default_config sample_env (MemoryCacheImpl 0) [] (Body (Some ''ftp://github.com/a/b'')))) = 400
   \<and> snd (POST default_config sample_env (MemoryCacheImpl 0) [] (Body (Some ''ftp://github.com/a/b''))) = ([], [])
   \<and> status (fst (POST default_config sample_env (MemoryCacheImpl 0) [] (Body (Some ''https://evil.example/a/b'')))) = 400
   \<and> snd (POST default_config sample_env (MemoryCacheImpl 0) [] (Body (Some ''https://evil.example/a/b''))) = ([], [])"
  using invalid_url_rejected_early [OF sample_rejected(1), of "MemoryCacheImpl 0" "[]"]
    invalid_url_rejected_early [OF sample_rejected(3), of "MemoryCacheImpl 0" "[]"]
    invalid_url_rejected_early [OF sample_rejected(4), of "MemoryCacheImpl 0" "[]"]
    invalid_url_rejected_early [OF sample_rejected(5), of "MemoryCacheImpl 0" "[]"]
  by (intro conjI) (erule conjunct1 conjunct2)+

subsection \<open>The calls made on the cache\<close>

lemma recording_get [simp]:
  "cache_get (Recording inner) (s, seen) key =
     (fst (cache_get inner s key), (snd (cache_get inner s key), seen @ [GetCall key]))"
  by (simp add: Recording_def)

lemma recording_set [simp]:
  "cache_set (Recording inner) (s, seen) key v ttl =
     (fst (cache_set inner s key v ttl),
      (snd (cache_set inner s key v ttl), seen @ [SetCall key v ttl]))"
  by (simp add: Recording_def)

lemma memory_cache_get:
  "cache_get (MemoryCacheImpl now) c key = (Return (fst (mem_get now c key)), snd (mem_get now c key))"
  by (simp add: MemoryCacheImpl_def)

lemma memory_cache_set:
  "cache_set (MemoryCacheImpl now) c key v ttl = (Return (), mem_set_number now c key v ttl)"
  by (simp add: MemoryCacheImpl_def)

lemma compute_recorded_keys:
  "set (map call_key (snd (store (compute cfg env (Recording inner) (s, seen) u))))
     \<subseteq> set (map call_key seen) \<union> {''repo:'' @ u}"
  by (auto simp: compute_def Let_def cacheKey_def
      split: completion.splits prod.splits option.splits)

lemma analyse_recorded_keys:
  "set (map call_key (snd (store (analyse cfg env (Recording inner) (s, seen) u))))
     \<subseteq> set (map call_key seen) \<union> {''repo:'' @ u}"
  using compute_recorded_keys [of cfg env inner "snd (cache_get inner s (''repo:'' @ u))"
      "seen @ [GetCall (''repo:'' @ u)]" u]
  by (auto simp: analyse_def Let_def cacheKey_def split: completion.splits prod.splits)

lemma on_error_recorded_keys:
  "set (map call_key (snd (fst (snd (on_error cfg (Recording inner) sr (Some u) e)))))
     \<subseteq> set (map call_key (snd sr)) \<union> {''repo:'' @ u}"
  by (cases sr) (auto simp: on_error_def Let_def cacheKey_def)

lemma post_recorded_keys:
  "set (map call_key (recorded (POST cfg env (Recording inner) (s, []) (Body (Some u)))))
     \<subseteq> {''repo:'' @ u}"
proof (cases "validate cfg env (Some u)")
  case (Inl resp)
  then show ?thesis by (simp add: POST_def recorded_def)
next
  case (Inr u')
  then have u: "u' = u"
    by (auto dest: validate_Inr)
  let ?r = "analyse cfg env (Recording inner) (s, []) u"
  have a: "set (map call_key (snd (store ?r))) \<subseteq> {''repo:'' @ u}"
    using analyse_recorded_keys [of cfg env inner s "[]" u] by simp
  show ?thesis
  proof (cases "completion ?r")
    case (Return resp)
    with Inr u a show ?thesis
      by (simp add: POST_def Let_def recorded_def)
  next
    case (Throw e)
    have "set (map call_key (snd (fst (snd (on_error cfg (Recording inner) (store ?r) (Some u) e)))))
        \<subseteq> {''repo:'' @ u}"
      using on_error_recorded_keys [of cfg inner "store ?r" u e] a by blast
    with Inr u Throw show ?thesis
      by (simp add: POST_def Let_def recorded_def split_def)
  qed
qed

lemma post_recorded_lookup:
  assumes "validate cfg env (Some u) = Inr u"
  shows "take 1 (recorded (POST cfg env (Recording inner) (s, []) (Body (Some u))))
           = [GetCall (''repo:'' @ u)]"
proof -
  have c: "\<exists>more. snd (store (compute cfg env (Recording inner) (s', seen) u)) = seen @ more"
    for s' seen
    by (simp add: compute_def Let_def split: completion.splits prod.splits option.splits)
  have "\<exists>more. snd (store (analyse cfg env (Recording inner) (s, []) u)) = GetCall (''repo:'' @ u) # more"
    using c [of "snd (cache_get inner s (''repo:'' @ u))" "[GetCall (''repo:'' @ u)]"]
    by (auto simp: analyse_def Let_def cacheKey_def split: completion.splits prod.splits)
  then obtain more where a:
    "snd (store (analyse cfg env (Recording inner) (s, []) u)) = GetCall (''repo:'' @ u) # more"
    by blast
  have e: "\<exists>more. snd (fst (snd (on_error cfg (Recording inner) sr r x))) = snd sr @ more"
    for sr r x
    by (cases sr) (simp add: on_error_def Let_def split: option.splits)
  show ?thesis
  proof (cases "completion (analyse cfg env (Recording inner) (s, []) u)")
    case (Return resp)
    with assms a show ?thesis
      by (simp add: POST_def Let_def recorded_def)
  next
    case (Throw x)
    from e [of "store (analyse cfg env (Recording inner) (s, []) u)" "Some u" x] a
    obtain more' where
      "snd (fst (snd (on_error cfg (Recording inner)
          (store (analyse cfg env (Recording inner) (s, []) u)) (Some u) x)))
        = GetCall (''repo:'' @ u) # more'"
      by auto
    with assms Throw show ?thesis
      by (simp add: POST_def Let_def recorded_def split_def)
  qed
qed

lemma post_success:
  assumes valid: "validate cfg env (Some u) = Inr u"
    and get: "cache_get cache s (''repo:'' @ u) = (Return v, s1)"
    and miss: "\<not> truthy v"
    and dir: "mkdtemp env = Return dir"
    and clone: "git_clone env = Return (bytes, tree)"
    and walk: "traverse (EXTENSION_MAP env) dir tree init_state = (None, st)"
    and written: "cache_set cache s1 (''repo:'' @ u) (result_json st) (cache_ttl cfg bytes)
                    = (Return (), s2)"
  shows "POST cfg env cache s (Body (Some u)) =
           (\<lparr>status = 200, body = result_json st\<rparr>, s2,
            [CacheGet (''repo:'' @ u), Mkdtemp, Clone u dir, Walk (calls st),
             CacheSet (''repo:'' @ u) (result_json st) (cache_ttl cfg bytes)] @ cleanup dir)"
proof -
  have c: "compute cfg env cache s1 u =
      \<lparr>completion = Return \<lparr>status = 200, body = result_json st\<rparr>, store = s2,
       events = [Mkdtemp, Clone u dir, Walk (calls st),
                 CacheSet (''repo:'' @ u) (result_json st) (cache_ttl cfg bytes)],
       tempDir = dir\<rparr>"
    using dir clone walk written by (simp add: compute_def cacheKey_def Let_def)
  have a: "analyse cfg env cache s u =
      \<lparr>completion = Return \<lparr>status = 200, body = result_json st\<rparr>, store = s2,
       events = [CacheGet (''repo:'' @ u), Mkdtemp, Clone u dir, Walk (calls st),
                 CacheSet (''repo:'' @ u) (result_json st) (cache_ttl cfg bytes)],
       tempDir = dir\<rparr>"
    using get miss c by (simp add: analyse_def cacheKey_def Let_def)
  show ?thesis
    by (simp add: POST_def valid a)
qed

lemma post_timeout:
  assumes valid: "validate cfg env (Some u) = Inr u"
    and get: "cache_get cache s (''repo:'' @ u) = (Return v, s1)"
    and miss: "\<not> truthy v"
    and dir: "mkdtemp env = Return dir"
    and clone: "git_clone env = Throw e"
    and abort: "is_abort e"
  shows "POST cfg env cache s (Body (Some u)) =
           (error_response 408 (timeout_message cfg),
            snd (cache_set cache s1 (''repo:'' @ u)
                   (JObj [(''error'', JStr (timeout_message cfg))]) (CACHE_TTL_ON_TIMEOUT cfg)),
            [CacheGet (''repo:'' @ u), Mkdtemp, Clone u dir,
             CacheSet (''repo:'' @ u) (JObj [(''error'', JStr (timeout_message cfg))])
               (CACHE_TTL_ON_TIMEOUT cfg)] @ cleanup dir)"
proof -
  from valid have ne: "u \<noteq> []"
    by (auto dest: validate_Inr)
  have c: "compute cfg env cache s1 u =
      \<lparr>completion = Throw e, store = s1, events = [Mkdtemp, Clone u dir], tempDir = dir\<rparr>"
    using dir clone by (simp add: compute_def)
  have a: "analyse cfg env cache s u =
      \<lparr>completion = Throw e, store = s1,
       events = [CacheGet (''repo:'' @ u), Mkdtemp, Clone u dir], tempDir = dir\<rparr>"
    using get miss c by (simp add: analyse_def cacheKey_def Let_def)
  show ?thesis
    using ne abort by (simp add: POST_def valid a on_error_def cacheKey_def Let_def)
qed

lemma post_recorded_hit:
  assumes valid: "validate cfg env (Some u) = Inr u"
    and get: "cache_get inner s (''repo:'' @ u) = (Return v, s1)"
    and hit: "truthy v"
  shows "recorded (POST cfg env (Recording inner) (s, []) (Body (Some u)))
           = [GetCall (''repo:'' @ u)]"
  using get hit
  by (simp add: POST_def valid analyse_def cacheKey_def recorded_def Let_def)

lemma post_recorded_success:
  assumes valid: "validate cfg env (Some u) = Inr u"
    and get: "cache_get inner s (''repo:'' @ u) = (Return v, s1)"
    and miss: "\<not> truthy v"
    and dir: "mkdtemp env = Return dir"
    and clone: "git_clone env = Return (bytes, tree)"
    and walk: "traverse (EXTENSION_MAP env) dir tree init_state = (None, st)"
    and written: "fst (cache_set inner s1 (''repo:'' @ u) (result_json st) (cache_ttl cfg bytes)) = Return ()"
  shows "recorded (POST cfg env (Recording inner) (s, []) (Body (Some u)))
           = [GetCall (''repo:'' @ u),
              SetCall (''repo:'' @ u) (result_json st) (cache_ttl cfg bytes)]"
proof -
  have g: "cache_get (Recording inner) (s, []) (''repo:'' @ u)
      = (Return v, (s1, [GetCall (''repo:'' @ u)]))"
    using get by simp
  have w: "cache_set (Recording inner) (s1, [GetCall (''repo:'' @ u)]) (''repo:'' @ u)
        (result_json st) (cache_ttl cfg bytes)
      = (Return (),
         (snd (cache_set inner s1 (''repo:'' @ u) (result_json st) (cache_ttl cfg bytes)),
          [GetCall (''repo:'' @ u),
           SetCall (''repo:'' @ u) (result_json st) (cache_ttl cfg bytes)]))"
    using written by simp
  show ?thesis
    by (simp add: post_success [OF valid g miss dir clone walk w] recorded_def)
qed

lemma post_recorded_timeout:
  assumes valid: "validate cfg env (Some u) = Inr u"
    and get: "cache_get inner s (''repo:'' @ u) = (Return v, s1)"
    and miss: "\<not> truthy v"
    and dir: "mkdtemp env = Return dir"
    and clone: "git_clone env = Throw e"
    and abort: "is_abort e"
  shows "recorded (POST cfg env (Recording inner) (s, []) (Body (Some u)))
           = [GetCall (''repo:'' @ u),
              SetCall (''repo:'' @ u) (JObj [(''error'', JStr (timeout_message cfg))])
                (CACHE_TTL_ON_TIMEOUT cfg)]"
proof -
  have g: "cache_get (Recording inner) (s, []) (''repo:'' @ u)
      = (Return v, (s1, [GetCall (''repo:'' @ u)]))"
    using get by simp
  show ?thesis
    by (simp add: post_timeout [OF valid g miss dir clone abort] recorded_def)
qed

lemma sample_valid: "validate default_config sample_env (Some sample_url) = Inr sample_url"
  by (simp add: validate_def sample_env_def default_config_def sample_url_def simple_URL_def
      toLowerCase_def lower_char_def is_host_char_def is_letter_def)

lemma sample_walk:
  "fst (traverse sample_map ''/tmp/howmanylines-1'' small_tree init_state) = None"
  "result_json (snd (traverse sample_map ''/tmp/howmanylines-1'' small_tree init_state)) = sample_result"
  by code_simp+

lemma sample_lookup:
  "cache_get (MemoryCacheImpl 0) [] (''repo:'' @ sample_url) = (Return JNull, [])"
  "\<not> truthy JNull"
  by (simp_all add: memory_cache_get mem_get_def lru_get_def)

lemma sample_fetch:
  "mkdtemp sample_env = Return ''/tmp/howmanylines-1''"
  "git_clone sample_env = Return (1000, small_tree)"
  "traverse (EXTENSION_MAP sample_env) ''/tmp/howmanylines-1'' small_tree init_state =
     (None, snd (traverse sample_map ''/tmp/howmanylines-1'' small_tree init_state))"
  using sample_walk(1) by (simp_all add: sample_env_def git_clone_def prod_eq_iff)

lemma sample_timeout:
  "validate default_config (sample_env\<lparr>deadline := DuringFetch\<rparr>) (Some sample_url) = Inr sample_url"
  "mkdtemp (sample_env\<lparr>deadline := DuringFetch\<rparr>) = Return ''/tmp/howmanylines-1''"
  "git_clone (sample_env\<lparr>deadline := DuringFetch\<rparr>) = Throw abort_error"
  "is_abort abort_error"
  by (simp_all add: validate_def sample_env_def default_config_def sample_url_def simple_URL_def
      toLowerCase_def lower_char_def is_host_char_def is_letter_def git_clone_def is_abort_def
      abort_error_def)

lemma sample_written:
  "fst (cache_set (MemoryCacheImpl now) c key v ttl) = Return ()"
  by (simp add: memory_cache_set)

lemma timeout_message_nonempty [simp]: "timeout_message cfg \<noteq> []"
  by (simp add: timeout_message_def)

lemma timeout_message_default:
  "timeout_message default_config = ''Analysis timed out after 60 seconds''"
  by code_simp

lemma default_factor:
  "CACHE_TTL_MIN_SECONDS default_config = Num 86400"
  "parsed_float (CACHE_TTL_PER_BYTE default_config) = Num (5764607523034235 / 576460752303423488)"
  by (simp_all add: default_config_def double_hundredth)

lemma default_ttls:
  "cache_ttl default_config 1000 = Num 86400"
  "cache_ttl default_config 10000000 = Num 100000"
  "cache_ttl default_config 20000000 = Num 200000"
  by (simp_all only: cache_ttl_def default_factor product_hundredth) simp_all

lemma default_timeout_ttl: "CACHE_TTL_ON_TIMEOUT default_config = Num 31536000"
  by (simp add: default_config_def)

text \<open>
  Claim C3, as stated: the key is derived from the normalized URL. Two URLs with one
  normal form, both of which pass the validation, get two different keys.
\<close>

theorem cache_key_counterexample:
  "new_URL sample_env ''HTTPS://GitHub.com/a/b'' = new_URL sample_env ''https://github.com/a/b''
   \<and> validate default_config sample_env (Some ''HTTPS://GitHub.com/a/b'') = Inr ''HTTPS://GitHub.com/a/b''
   \<and> validate default_config sample_env (Some ''https://github.com/a/b'') = Inr ''https://github.com/a/b''
   \<and> cacheKey ''HTTPS://GitHub.com/a/b'' \<noteq> cacheKey ''https://github.com/a/b''"
  by (simp add: validate_def sample_env_def default_config_def simple_URL_def toLowerCase_def
      lower_char_def is_host_char_def is_letter_def cacheKey_def)

text \<open>
  Claim C3, amended. Every call that a request makes on the cache, lookup or write, has
  the key \<^verbatim>\<open>repo:\<close> followed by the URL exactly as the request gave it. A request
  that passes the validation looks that key up first. When the lookup gives a truthy
  value, it is the only call. When the lookup gives nothing, the fetch and the traversal
  succeed and the write succeeds, the calls are the lookup and one write of the result
  under that key; when the lookup gives nothing and the fetch stops on the abort error,
  the calls are the lookup and one write of the timeout message under that key.
\<close>

theorem cache_key_is_given_url:
  "set (map call_key (recorded (POST cfg env (Recording inner) (s, []) (Body (Some repoUrl)))))
     \<subseteq> {''repo:'' @ repoUrl}
   \<and> (validate cfg env (Some repoUrl) = Inr repoUrl \<longrightarrow>
        take 1 (recorded (POST cfg env (Recording inner) (s, []) (Body (Some repoUrl))))
          = [GetCall (''repo:'' @ repoUrl)])
   \<and> (validate cfg env (Some repoUrl) = Inr repoUrl
        \<and> cache_get inner s (''repo:'' @ repoUrl) = (Return v, s1) \<and> truthy v \<longrightarrow>
        recorded (POST cfg env (Recording inner) (s, []) (Body (Some repoUrl)))
          = [GetCall (''repo:'' @ repoUrl)])
   \<and> (validate cfg env (Some repoUrl) = Inr repoUrl
        \<and> cache_get inner s (''repo:'' @ repoUrl) = (Return v, s1) \<and> \<not> truthy v
        \<and> mkdtemp env = Return dir \<and> git_clone env = Return (bytes, tree)
        \<and> traverse (EXTENSION_MAP env) dir tree init_state = (None, st)
        \<and> fst (cache_set inner s1 (''repo:'' @ repoUrl) (result_json st) (cache_ttl cfg bytes))
            = Return () \<longrightarrow>
        recorded (POST cfg env (Recording inner) (s, []) (Body (Some repoUrl)))
          = [GetCall (''repo:'' @ repoUrl),
             SetCall (''repo:'' @ repoUrl) (result_json st) (cache_ttl cfg bytes)])
   \<and> (validate cfg env (Some repoUrl) = Inr repoUrl
        \<and> cache_get inner s (''repo:'' @ repoUrl) = (Return v, s1) \<and> \<not> truthy v
        \<and> mkdtemp env = Return dir \<and> git_clone env = Throw e \<and> is_abort e \<longrightarrow>
        recorded (POST cfg env (Recording inner) (s, []) (Body (Some repoUrl)))
          = [GetCall (''repo:'' @ repoUrl),
             SetCall (''repo:'' @ repoUrl) (JObj [(''error'', JStr (timeout_message cfg))])
               (CACHE_TTL_ON_TIMEOUT cfg)])"
  using post_recorded_keys [of cfg env inner s repoUrl]
    post_recorded_lookup [of cfg env repoUrl inner s]
    post_recorded_hit [of cfg env repoUrl inner s v s1]
    post_recorded_success [of cfg env repoUrl inner s v s1 dir bytes tree st]
    post_recorded_timeout [of cfg env repoUrl inner s v s1 dir e]
  by blast

theorem cache_key_is_given_url_witness:
  "recorded (POST default_config sample_env (Recording (MemoryCacheImpl 0)) ([], [])
      (Body (Some sample_url)))
     = [GetCall ''repo:https://github.com/a/b'',
        SetCall ''repo:https://github.com/a/b'' sample_result (Num 86400)]
   \<and> recorded (POST default_config (sample_env\<lparr>deadline := DuringFetch\<rparr>)
        (Recording (MemoryCacheImpl 0)) ([], []) (Body (Some sample_url)))
     = [GetCall ''repo:https://github.com/a/b'',
        SetCall ''repo:https://github.com/a/b''
          (JObj [(''error'', JStr ''Analysis timed out after 60 seconds'')]) (Num 31536000)]"
proof -
  have "recorded (POST default_config sample_env (Recording (MemoryCacheImpl 0)) ([], [])
      (Body (Some sample_url)))
     = [GetCall (''repo:'' @ sample_url),
        SetCall (''repo:'' @ sample_url)
          (result_json (snd (traverse sample_map ''/tmp/howmanylines-1'' small_tree init_state)))
          (cache_ttl default_config 1000)]"
    using cache_key_is_given_url [of default_config sample_env "MemoryCacheImpl 0" "[]" sample_url
        JNull "[]" "''/tmp/howmanylines-1''" 1000 small_tree
        "snd (traverse sample_map ''/tmp/howmanylines-1'' small_tree init_state)"]
      sample_valid sample_lookup sample_fetch sample_written
    by blast
  moreover have "recorded (POST default_config (sample_env\<lparr>deadline := DuringFetch\<rparr>)
        (Recording (MemoryCacheImpl 0)) ([], []) (Body (Some sample_url)))
     = [GetCall (''repo:'' @ sample_url),
        SetCall (''repo:'' @ sample_url)
          (JObj [(''error'', JStr (timeout_message default_config))])
          (CACHE_TTL_ON_TIMEOUT default_config)]"
    using cache_key_is_given_url [of default_config "sample_env\<lparr>deadline := DuringFetch\<rparr>"
        "MemoryCacheImpl 0" "[]" sample_url JNull "[]" "''/tmp/howmanylines-1''" _ _ _ abort_error]
      sample_timeout sample_lookup
    by blast
  ultimately show ?thesis
    by (simp add: sample_walk(2) default_ttls(1) default_timeout_ttl timeout_message_default
        sample_url_def)
qed

subsection \<open>The time to live of a result\<close>

lemma cache_ttl_mono:
  assumes "CACHE_TTL_MIN_SECONDS cfg \<noteq> NaN"
    and "parsed_float (CACHE_TTL_PER_BYTE cfg) = Num f" and "0 \<le> f" and "b1 \<le> b2"
  shows "js_le (cache_ttl cfg b1) (cache_ttl cfg b2)"
proof -
  have "0 \<le> real b1 * f" and "real b1 * f \<le> real b2 * f"
    using assms by (simp_all add: mult_right_mono)
  then have "js_le (binary64 (real b1 * f)) (binary64 (real b2 * f))"
    by (rule binary64_mono)
  then have "js_le (js_ceil (binary64 (real b1 * f))) (js_ceil (binary64 (real b2 * f)))"
    by (rule js_ceil_mono)
  with assms(1) have "js_le (js_max (CACHE_TTL_MIN_SECONDS cfg) (js_ceil (binary64 (real b1 * f))))
      (js_max (CACHE_TTL_MIN_SECONDS cfg) (js_ceil (binary64 (real b2 * f))))"
    by (rule js_max_mono)
  with assms(2) show ?thesis
    by (simp add: cache_ttl_def)
qed

lemma cache_ttl_lower:
  assumes "CACHE_TTL_MIN_SECONDS cfg \<noteq> NaN"
    and "parsed_float (CACHE_TTL_PER_BYTE cfg) = Num f"
  shows "js_le (CACHE_TTL_MIN_SECONDS cfg) (cache_ttl cfg b)"
  using assms by (simp add: cache_ttl_def js_max_lower)

lemma percent_fetch:
  "validate percent_config light_env (Some sample_url) = Inr sample_url"
  "mkdtemp light_env = Return ''/tmp/howmanylines-1''"
  "git_clone light_env = Return (100, small_tree)"
  "traverse (EXTENSION_MAP light_env) ''/tmp/howmanylines-1'' small_tree init_state =
     (None, snd (traverse sample_map ''/tmp/howmanylines-1'' small_tree init_state))"
  using sample_walk(1)
  by (simp_all add: validate_def percent_config_def light_env_def sample_env_def
      default_config_def sample_url_def simple_URL_def toLowerCase_def lower_char_def
      is_host_char_def is_letter_def git_clone_def prod_eq_iff)

lemma percent_factor:
  "CACHE_TTL_MIN_SECONDS percent_config = Num 0"
  "parsed_float (CACHE_TTL_PER_BYTE percent_config) = Num (1261007895663739 / 18014398509481984)"
  by (simp_all add: percent_config_def default_config_def double_7_hundredths)

lemma percent_ttl:
  "js_max (CACHE_TTL_MIN_SECONDS percent_config)
     (js_ceil (js_times (Num (real 100)) (parsed_float (CACHE_TTL_PER_BYTE percent_config))))
   = Num 8"
  by (simp only: percent_factor product_7_hundredths) simp

lemma default_positive:
  "CACHE_TTL_MIN_SECONDS default_config \<noteq> NaN"
  "parsed_float (CACHE_TTL_PER_BYTE default_config) = Num (5764607523034235 / 576460752303423488)"
  "(0::real) \<le> 5764607523034235 / 576460752303423488"
  "(10000000::nat) < 20000000"
  by (simp_all add: default_factor)

lemma negative_factor:
  "CACHE_TTL_MIN_SECONDS negative_config = Num (- 100)"
  "parsed_float (CACHE_TTL_PER_BYTE negative_config) = Num (- 1)"
  by (simp_all add: negative_config_def default_config_def double_negative)

lemma negative_ttls:
  "cache_ttl negative_config 10 = Num (- 10)"
  "cache_ttl negative_config 20 = Num (- 20)"
  by (simp_all only: cache_ttl_def negative_factor product_negative) simp_all

lemma nan_ttl: "cache_ttl nan_config b = NaN"
  by (simp add: cache_ttl_def nan_config_def)

lemma nan_not_le: "\<not> js_le (CACHE_TTL_MIN_SECONDS nan_config) x"
  by (simp add: nan_config_def)

text \<open>
  Claim C7, as stated: under one configuration more bytes never give a shorter time to
  live, and the time to live is never below the configured minimum. With a negative factor
  and a negative minimum, 20 bytes give less than 10. With a minimum that is not a number
  (the variable is set to a text without leading digits) the time to live is not a number
  and is not above the minimum or anything else.
\<close>

theorem cache_ttl_counterexample:
  "(10::nat) < 20
   \<and> cache_ttl negative_config 10 = Num (- 10) \<and> cache_ttl negative_config 20 = Num (- 20)
   \<and> \<not> js_le (cache_ttl negative_config 10) (cache_ttl negative_config 20)
   \<and> cache_ttl nan_config 20 = NaN
   \<and> \<not> js_le (CACHE_TTL_MIN_SECONDS nan_config) (cache_ttl nan_config 20)"
  by (simp add: negative_ttls nan_ttl nan_not_le)

text \<open>
  Claim C7, amended. A request that misses the cache and whose fetch, traversal and write
  succeed makes one write on the cache, and the time to live it passes is
  \<^verbatim>\<open>Math.max(minimum, Math.ceil(bytes * factor))\<close>, the product and the factor being
  doubles. When the minimum is not NaN and the factor is a finite number that is not
  negative, more bytes never give a shorter time to live; when the minimum is not NaN and
  the factor is finite, the time to live is never below the minimum.
\<close>

theorem cache_ttl_policy:
  "(validate cfg env (Some u) = Inr u
      \<and> cache_get inner s (''repo:'' @ u) = (Return v, s1) \<and> \<not> truthy v
      \<and> mkdtemp env = Return dir \<and> git_clone env = Return (bytes, tree)
      \<and> traverse (EXTENSION_MAP env) dir tree init_state = (None, st)
      \<and> (\<forall>ttl. fst (cache_set inner s1 (''repo:'' @ u) (result_json st) ttl) = Return ()) \<longrightarrow>
    recorded (POST cfg env (Recording inner) (s, []) (Body (Some u)))
      = [GetCall (''repo:'' @ u),
         SetCall (''repo:'' @ u) (result_json st)
           (js_max (CACHE_TTL_MIN_SECONDS cfg)
              (js_ceil (js_times (Num (real bytes)) (parsed_float (CACHE_TTL_PER_BYTE cfg)))))])
   \<and> (CACHE_TTL_MIN_SECONDS cfg \<noteq> NaN \<and> parsed_float (CACHE_TTL_PER_BYTE cfg) = Num f
        \<and> 0 \<le> f \<and> b1 < b2 \<longrightarrow>
      js_le (cache_ttl cfg b1) (cache_ttl cfg b2))
   \<and> (CACHE_TTL_MIN_SECONDS cfg \<noteq> NaN \<and> parsed_float (CACHE_TTL_PER_BYTE cfg) = Num f \<longrightarrow>
      js_le (CACHE_TTL_MIN_SECONDS cfg) (cache_ttl cfg b1)
      \<and> js_le (CACHE_TTL_MIN_SECONDS cfg) (cache_ttl cfg b2))"
proof (intro conjI impI)
  assume h: "validate cfg env (Some u) = Inr u
      \<and> cache_get inner s (''repo:'' @ u) = (Return v, s1) \<and> \<not> truthy v
      \<and> mkdtemp env = Return dir \<and> git_clone env = Return (bytes, tree)
      \<and> traverse (EXTENSION_MAP env) dir tree init_state = (None, st)
      \<and> (\<forall>ttl. fst (cache_set inner s1 (''repo:'' @ u) (result_json st) ttl) = Return ())"
  then have "recorded (POST cfg env (Recording inner) (s, []) (Body (Some u)))
      = [GetCall (''repo:'' @ u), SetCall (''repo:'' @ u) (result_json st) (cache_ttl cfg bytes)]"
    using post_recorded_success [of cfg env u inner s v s1 dir bytes tree st] by blast
  then show "recorded (POST cfg env (Recording inner) (s, []) (Body (Some u)))
      = [GetCall (''repo:'' @ u),
         SetCall (''repo:'' @ u) (result_json st)
           (js_max (CACHE_TTL_MIN_SECONDS cfg)
              (js_ceil (js_times (Num (real bytes)) (parsed_float (CACHE_TTL_PER_BYTE cfg)))))]"
    by (simp add: cache_ttl_def)
next
  assume "CACHE_TTL_MIN_SECONDS cfg \<noteq> NaN \<and> parsed_float (CACHE_TTL_PER_BYTE cfg) = Num f
        \<and> 0 \<le> f \<and> b1 < b2"
  then show "js_le (cache_ttl cfg b1) (cache_ttl cfg b2)"
    using cache_ttl_mono [of cfg f b1 b2] by simp
next
  assume "CACHE_TTL_MIN_SECONDS cfg \<noteq> NaN \<and> parsed_float (CACHE_TTL_PER_BYTE cfg) = Num f"
  then show "js_le (CACHE_TTL_MIN_SECONDS cfg) (cache_ttl cfg b1)"
    using cache_ttl_lower [of cfg f b1] by simp
next
  assume "CACHE_TTL_MIN_SECONDS cfg \<noteq> NaN \<and> parsed_float (CACHE_TTL_PER_BYTE cfg) = Num f"
  then show "js_le (CACHE_TTL_MIN_SECONDS cfg) (cache_ttl cfg b2)"
    using cache_ttl_lower [of cfg f b2] by simp
qed

theorem cache_ttl_policy_witness:
  "recorded (POST percent_config light_env (Recording (MemoryCacheImpl 0)) ([], [])
      (Body (Some sample_url)))
     = [GetCall ''repo:https://github.com/a/b'',
        SetCall ''repo:https://github.com/a/b'' sample_result (Num 8)]
   \<and> js_le (cache_ttl default_config 10000000) (cache_ttl default_config 20000000)
   \<and> js_le (CACHE_TTL_MIN_SECONDS default_config) (cache_ttl default_config 10000000)
   \<and> js_le (CACHE_TTL_MIN_SECONDS default_config) (cache_ttl default_config 20000000)"
proof -
  have "recorded (POST percent_config light_env (Recording (MemoryCacheImpl 0)) ([], [])
      (Body (Some sample_url)))
     = [GetCall (''repo:'' @ sample_url),
        SetCall (''repo:'' @ sample_url)
          (result_json (snd (traverse sample_map ''/tmp/howmanylines-1'' small_tree init_state)))
          (js_max (CACHE_TTL_MIN_SECONDS percent_config)
             (js_ceil (js_times (Num (real 100)) (parsed_float (CACHE_TTL_PER_BYTE percent_config)))))]"
    using cache_ttl_policy [of percent_config light_env sample_url "MemoryCacheImpl 0" "[]"
        JNull "[]" "''/tmp/howmanylines-1''" 100 small_tree
        "snd (traverse sample_map ''/tmp/howmanylines-1'' small_tree init_state)"]
      percent_fetch sample_lookup sample_written
    by blast
  then have "recorded (POST percent_config light_env (Recording (MemoryCacheImpl 0)) ([], [])
      (Body (Some sample_url)))
     = [GetCall (''repo:'' @ sample_url), SetCall (''repo:'' @ sample_url) sample_result (Num 8)]"
    by (simp only: percent_ttl sample_walk(2))
  moreover have "js_le (cache_ttl default_config 10000000) (cache_ttl default_config 20000000)
      \<and> js_le (CACHE_TTL_MIN_SECONDS default_config) (cache_ttl default_config 10000000)
      \<and> js_le (CACHE_TTL_MIN_SECONDS default_config) (cache_ttl default_config 20000000)"
    using cache_ttl_policy [of default_config sample_env sample_url "MemoryCacheImpl 0" "[]"
        JNull "[]" "''/tmp/howmanylines-1''" 1000 small_tree
        "snd (traverse sample_map ''/tmp/howmanylines-1'' small_tree init_state)"
        "5764607523034235 / 576460752303423488" 10000000 20000000]
      default_positive
    by blast
  ultimately show ?thesis
    by (simp add: sample_url_def)
qed

subsection \<open>The deadline\<close>

lemma git_clone_during_traversal:
  "git_clone (env\<lparr>deadline := DuringTraversal\<rparr>) = git_clone (env\<lparr>deadline := NotReached\<rparr>)"
  by (simp add: git_clone_def)

lemma compute_during_traversal:
  "compute cfg (env\<lparr>deadline := DuringTraversal\<rparr>) cache s u
     = compute cfg (env\<lparr>deadline := NotReached\<rparr>) cache s u"
  by (simp add: compute_def git_clone_during_traversal
      split: completion.split prod.split option.split)

lemma analyse_during_traversal:
  "analyse cfg (env\<lparr>deadline := DuringTraversal\<rparr>) cache s u
     = analyse cfg (env\<lparr>deadline := NotReached\<rparr>) cache s u"
  by (simp add: analyse_def compute_during_traversal split: completion.split prod.split)

lemma validate_deadline: "validate cfg (env\<lparr>deadline := d\<rparr>) r = validate cfg env r"
  by (simp add: validate_def split: option.split)

lemma post_during_traversal:
  "POST cfg (env\<lparr>deadline := DuringTraversal\<rparr>) cache s request
     = POST cfg (env\<lparr>deadline := NotReached\<rparr>) cache s request"
  by (simp add: POST_def validate_deadline analyse_during_traversal
      split: request_body.split sum.split)

lemma sample_post:
  "fst (POST default_config (sample_env\<lparr>deadline := NotReached\<rparr>) (MemoryCacheImpl 0) []
     (Body (Some sample_url))) = \<lparr>status = 200, body = sample_result\<rparr>"
  "fst (mem_get 1000
     (fst (snd (POST default_config (sample_env\<lparr>deadline := NotReached\<rparr>) (MemoryCacheImpl 0) []
        (Body (Some sample_url)))))
     (cacheKey sample_url)) = sample_result"
proof -
  have env: "sample_env\<lparr>deadline := NotReached\<rparr> = sample_env"
    by (simp add: sample_env_def)
  have w: "cache_set (MemoryCacheImpl 0) [] (''repo:'' @ sample_url)
      (result_json (snd (traverse sample_map ''/tmp/howmanylines-1'' small_tree init_state)))
      (cache_ttl default_config 1000)
    = (Return (), mem_set 0 [] (cacheKey sample_url) sample_result (Some 86400))"
    by (simp add: memory_cache_set default_ttls(1) sample_walk(2) cacheKey_def)
  note p = post_success [OF sample_valid sample_lookup sample_fetch w]
  show "fst (POST default_config (sample_env\<lparr>deadline := NotReached\<rparr>) (MemoryCacheImpl 0) []
     (Body (Some sample_url))) = \<lparr>status = 200, body = sample_result\<rparr>"
    by (simp add: env p sample_walk(2))
  have "fst (mem_get 1000 (mem_set 0 [] (cacheKey sample_url) sample_result (Some 86400))
      (cacheKey sample_url)) = (if truthy sample_result then sample_result else JNull)"
    by (rule mem_get_after_set) (simp add: mem_entry_ttl_def mem_ttl_ms_def)
  then show "fst (mem_get 1000
     (fst (snd (POST default_config (sample_env\<lparr>deadline := NotReached\<rparr>) (MemoryCacheImpl 0) []
        (Body (Some sample_url)))))
     (cacheKey sample_url)) = sample_result"
    by (simp add: env p sample_result_def)
qed

text \<open>
  Claim C2. The claim asks for status 408 and a cached failure whenever the deadline
  passes before the fetch or the traversal is done. The traversal never reads the signal:
  a deadline that passes during the traversal changes nothing in what the handler does,
  and on the sample request the answer is 200 with the counts, which are then what the
  cache holds under the key of the request.
\<close>

theorem deadline_during_traversal_not_observed:
  "POST cfg (env\<lparr>deadline := DuringTraversal\<rparr>) cache s request
     = POST cfg (env\<lparr>deadline := NotReached\<rparr>) cache s request
   \<and> fst (POST default_config (sample_env\<lparr>deadline := DuringTraversal\<rparr>) (MemoryCacheImpl 0) []
        (Body (Some sample_url))) = \<lparr>status = 200, body = sample_result\<rparr>
   \<and> fst (mem_get 1000
        (fst (snd (POST default_config (sample_env\<lparr>deadline := DuringTraversal\<rparr>)
           (MemoryCacheImpl 0) [] (Body (Some sample_url)))))
        (cacheKey sample_url)) = sample_result"
  by (simp add: post_during_traversal sample_post)

text \<open>
  A deadline that passes during the fetch is observed. With the in-process cache, a
  request with a valid URL that misses the cache is answered 408 with the timeout
  message, and the failure is written under the key of the request with the time to live
  for timeouts; a later request for the same URL within that time is answered from the
  cache with the same message, under status 400, with one cache lookup and nothing else.
\<close>

lemma post_timeout_during_fetch:
  assumes valid: "validate cfg env (Some u) = Inr u"
    and miss: "\<not> truthy (fst (mem_get now s (cacheKey u)))"
    and dir: "mkdtemp env = Return dir"
    and fired: "deadline env = DuringFetch"
  shows "POST cfg env (MemoryCacheImpl now) s (Body (Some u)) =
           (error_response 408 (timeout_message cfg),
            mem_set_number now (snd (mem_get now s (cacheKey u))) (cacheKey u)
              (JObj [(''error'', JStr (timeout_message cfg))]) (CACHE_TTL_ON_TIMEOUT cfg),
            [CacheGet (cacheKey u), Mkdtemp, Clone u dir,
             CacheSet (cacheKey u) (JObj [(''error'', JStr (timeout_message cfg))])
               (CACHE_TTL_ON_TIMEOUT cfg)] @ cleanup dir)"
proof -
  from valid have ne: "u \<noteq> []"
    by (auto dest: validate_Inr)
  have c: "compute cfg env (MemoryCacheImpl now) (snd (mem_get now s (cacheKey u))) u =
      \<lparr>completion = Throw abort_error, store = snd (mem_get now s (cacheKey u)),
       events = [Mkdtemp, Clone u dir], tempDir = dir\<rparr>"
    using dir fired by (simp add: compute_def git_clone_def)
  have a: "analyse cfg env (MemoryCacheImpl now) s u =
      \<lparr>completion = Throw abort_error, store = snd (mem_get now s (cacheKey u)),
       events = [CacheGet (cacheKey u), Mkdtemp, Clone u dir], tempDir = dir\<rparr>"
    using miss by (simp add: analyse_def memory_cache_get c)
  have e: "on_error cfg (MemoryCacheImpl now) (snd (mem_get now s (cacheKey u))) (Some u) abort_error =
      (error_response 408 (timeout_message cfg),
       mem_set_number now (snd (mem_get now s (cacheKey u))) (cacheKey u)
         (JObj [(''error'', JStr (timeout_message cfg))]) (CACHE_TTL_ON_TIMEOUT cfg),
       [CacheSet (cacheKey u) (JObj [(''error'', JStr (timeout_message cfg))])
          (CACHE_TTL_ON_TIMEOUT cfg)])"
    using ne by (simp add: on_error_def is_abort_def abort_error_def memory_cache_set Let_def)
  show ?thesis
    by (simp add: POST_def valid a e)
qed

lemma post_cached_timeout:
  assumes valid: "validate cfg env (Some u) = Inr u"
    and ttl: "CACHE_TTL_ON_TIMEOUT cfg = Num t"
    and fresh: "now' - now \<le> mem_entry_ttl (Some t)"
  shows "fst (POST cfg env (MemoryCacheImpl now')
             (mem_set_number now s (cacheKey u) (JObj [(''error'', JStr (timeout_message cfg))])
                (CACHE_TTL_ON_TIMEOUT cfg))
             (Body (Some u)))
           = error_response 400 (timeout_message cfg)"
    and "snd (snd (POST cfg env (MemoryCacheImpl now')
             (mem_set_number now s (cacheKey u) (JObj [(''error'', JStr (timeout_message cfg))])
                (CACHE_TTL_ON_TIMEOUT cfg))
             (Body (Some u))))
           = [CacheGet (cacheKey u)]"
proof -
  have g: "fst (mem_get now'
             (mem_set_number now s (cacheKey u) (JObj [(''error'', JStr (timeout_message cfg))])
                (CACHE_TTL_ON_TIMEOUT cfg)) (cacheKey u))
           = JObj [(''error'', JStr (timeout_message cfg))]"
    using mem_get_after_set [OF fresh] by (simp add: ttl)
  have a: "analyse cfg env (MemoryCacheImpl now')
             (mem_set_number now s (cacheKey u) (JObj [(''error'', JStr (timeout_message cfg))])
                (CACHE_TTL_ON_TIMEOUT cfg)) u =
      \<lparr>completion = Return (error_response 400 (timeout_message cfg)),
       store = snd (mem_get now'
             (mem_set_number now s (cacheKey u) (JObj [(''error'', JStr (timeout_message cfg))])
                (CACHE_TTL_ON_TIMEOUT cfg)) (cacheKey u)),
       events = [CacheGet (cacheKey u)], tempDir = []\<rparr>"
    by (simp add: analyse_def memory_cache_get g error_response_def)
  show "fst (POST cfg env (MemoryCacheImpl now')
             (mem_set_number now s (cacheKey u) (JObj [(''error'', JStr (timeout_message cfg))])
                (CACHE_TTL_ON_TIMEOUT cfg))
             (Body (Some u)))
           = error_response 400 (timeout_message cfg)"
    by (simp add: POST_def valid a cleanup_def)
  show "snd (snd (POST cfg env (MemoryCacheImpl now')
             (mem_set_number now s (cacheKey u) (JObj [(''error'', JStr (timeout_message cfg))])
                (CACHE_TTL_ON_TIMEOUT cfg))
             (Body (Some u))))
           = [CacheGet (cacheKey u)]"
    by (simp add: POST_def valid a cleanup_def)
qed

end
